theory Spec2Isabelle
  imports Main "HOL-Library.Sublist"
begin

section \<open>Data model\<close>

text \<open>
  A Go \<open>error\<close> value. \<open>Wrap ctx e\<close> is \<open>fmt.Errorf("ctx: %w", e)\<close>; \<open>Cause\<close> is an
  error produced by a collaborator (the operating system, the git client, a library).
\<close>

datatype error = Cause string | Wrap string error

text \<open>
  \<open>v1alpha1.Repository\<close>, restricted to what \<open>Commit\<close> reads: the \<open>Repo\<close> field (the
  label of the pending-request gauge) and the connection settings handed to the git
  client constructor.
\<close>

record Repository =
  Repository_Repo :: string
  Insecure :: bool
  EnableLFS :: bool
  Proxy :: string

text \<open>\<open>apiclient.PathDetails\<close>: one hydration destination. A manifest is its text.\<close>

record PathDetails =
  Path :: string
  Manifests :: "string list"
  PathCommands :: "string list"

text \<open>\<open>apiclient.ManifestsRequest\<close>.\<close>

record ManifestsRequest =
  Repo :: Repository
  RepoUrl :: string
  TargetBranch :: string
  SyncBranch :: string
  DrySha :: string
  CommitMessage :: string
  Paths :: "PathDetails list"

text \<open>\<open>apiclient.ManifestsResponse\<close> has no field that \<open>Commit\<close> sets.\<close>

datatype ManifestsResponse = ManifestsResponse

text \<open>The struct \<open>hydratorMetadataFile\<close> (commit.go, lines 208-212).\<close>

record hydratorMetadataFile =
  Commands :: "string list"
  RepoURL :: string
  DrySHA :: string

datatype json = JString string | JArray "json list" | JObject "(string \<times> json) list"

text \<open>
  The JSON object of a \<open>hydratorMetadataFile\<close>, with the keys of its struct tags
  (\<open>commands\<close>, \<open>repoURL\<close>, \<open>drySha\<close>) in declaration order. A Go slice is modelled as a
  list, so a nil slice and an empty slice are the same value here.
\<close>

definition metadata_json :: "hydratorMetadataFile \<Rightarrow> json" where
  "metadata_json m =
     JObject [(''commands'', JArray (map JString (Commands m))),
              (''repoURL'', JString (RepoURL m)),
              (''drySha'', JString (DrySHA m))]"

subsection \<open>The README template\<close>

text \<open>
  The parsed form of a Go \<open>text/template\<close>, for the actions the README template uses:
  literal text, a field of the data (\<open>{{ .Name }}\<close>), \<open>{{ range $command := .Commands }}\<close>
  with its body, and the loop variable \<open>{{ $command }}\<close>.
\<close>

datatype tnode = Text string | Field string | RangeCommands "tnode list" | CommandVar

text \<open>
  \<open>manifestHydrationReadmeTemplate\<close> (commit.go, lines 214-225). The trim marker of
  \<open>{{ range ... -}}\<close> removes the newline that follows it, so the body of the loop is
  the command and one newline; the trim marker of \<open>{{ end -}}\<close> has nothing to remove,
  since the closing fence follows it directly.
\<close>

definition manifestHydrationReadmeTemplate :: "tnode list" where
  "manifestHydrationReadmeTemplate =
     [Text (''\<newline># Manifest Hydration\<newline>\<newline>'' @
            ''To hydrate the manifests in this repository, run the following commands:\<newline>\<newline>'' @
            ''```shell\<newline>'' @
            ''\<newline>git clone ''),
      Field ''RepoURL'',
      Text ''\<newline># cd into the cloned directory\<newline>git checkout '',
      Field ''DrySHA'',
      Text ''\<newline>'',
      RangeCommands [CommandVar, Text ''\<newline>''],
      Text ''```'']"

text \<open>Field lookup of the template engine: an unknown field is an execution error.\<close>

definition field_value :: "hydratorMetadataFile \<Rightarrow> string \<Rightarrow> error + string" where
  "field_value m name =
     (if name = ''RepoURL'' then Inr (RepoURL m)
      else if name = ''DrySHA'' then Inr (DrySHA m)
      else Inl (Cause (''can't evaluate field '' @ name)))"

text \<open>
  Execution of the nodes of a range body for one command; like the Go engine it stops
  at the first error. A range inside a range does not occur in the template and is an
  error here.
\<close>

fun exec_body :: "hydratorMetadataFile \<Rightarrow> string \<Rightarrow> tnode list \<Rightarrow> error + string" where
  "exec_body m c [] = Inr []"
| "exec_body m c (Text s # ns) =
     (case exec_body m c ns of Inl e \<Rightarrow> Inl e | Inr rest \<Rightarrow> Inr (s @ rest))"
| "exec_body m c (Field f # ns) =
     (case field_value m f of Inl e \<Rightarrow> Inl e
      | Inr v \<Rightarrow> (case exec_body m c ns of Inl e \<Rightarrow> Inl e | Inr rest \<Rightarrow> Inr (v @ rest)))"
| "exec_body m c (CommandVar # ns) =
     (case exec_body m c ns of Inl e \<Rightarrow> Inl e | Inr rest \<Rightarrow> Inr (c @ rest))"
| "exec_body m c (RangeCommands b # ns) = Inl (Cause ''nested range'')"

fun exec_range :: "hydratorMetadataFile \<Rightarrow> tnode list \<Rightarrow> string list \<Rightarrow> error + string" where
  "exec_range m b [] = Inr []"
| "exec_range m b (c # cs) =
     (case exec_body m c b of Inl e \<Rightarrow> Inl e
      | Inr s \<Rightarrow> (case exec_range m b cs of Inl e \<Rightarrow> Inl e | Inr rest \<Rightarrow> Inr (s @ rest)))"

fun exec_template :: "hydratorMetadataFile \<Rightarrow> tnode list \<Rightarrow> error + string" where
  "exec_template m [] = Inr []"
| "exec_template m (Text s # ns) =
     (case exec_template m ns of Inl e \<Rightarrow> Inl e | Inr rest \<Rightarrow> Inr (s @ rest))"
| "exec_template m (Field f # ns) =
     (case field_value m f of Inl e \<Rightarrow> Inl e
      | Inr v \<Rightarrow> (case exec_template m ns of Inl e \<Rightarrow> Inl e | Inr rest \<Rightarrow> Inr (v @ rest)))"
| "exec_template m (RangeCommands b # ns) =
     (case exec_range m b (Commands m) of Inl e \<Rightarrow> Inl e
      | Inr s \<Rightarrow> (case exec_template m ns of Inl e \<Rightarrow> Inl e | Inr rest \<Rightarrow> Inr (s @ rest)))"
| "exec_template m (CommandVar # ns) = Inl (Cause ''undefined variable $command'')"

section \<open>The world \<open>Commit\<close> acts on\<close>

text \<open>
  An absolute, cleaned path is the list of its components: \<open>/tmp/_commit-service/u\<close>
  is \<open>[''tmp'', ''_commit-service'', u]\<close>, and \<open>path.Join d name\<close> for a single name is
  \<open>d @ [name]\<close>. A path lies inside a directory when the directory is a \<open>prefix\<close> of it.
\<close>

type_synonym fpath = "string list"

datatype content = ManifestsDoc "string list" | MetadataDoc json | ReadmeDoc string

datatype node = Dir | File content

type_synonym filesystem = "fpath \<Rightarrow> node option"

text \<open>The calls of the git client that \<open>Commit\<close> makes, with their arguments.\<close>

datatype git_call =
    Init
  | Fetch string
  | SetAuthor string string
  | CheckoutOrOrphan string bool
  | CheckoutOrNew string string bool
  | RemoveContents
  | CommitAndPush string string

datatype log_level = Debug | Error

text \<open>
  Everything \<open>Commit\<close> does to its surroundings, in the order it does it. A log entry
  carries its level, its message and the error attached with \<open>WithError\<close>; the other
  log fields are left out.
\<close>

datatype event =
    IncPending string
  | DecPending string
  | UuidNewRandom
  | OsMkdirAll fpath
  | OsWriteFile fpath content
  | OsRemoveAll fpath
  | GitNewClientExt string fpath bool bool string
  | Git git_call
  | GetUserInfo
  | Log log_level string "error option"

text \<open>A push received by the remote: the branch, the message and the tree it carries.\<close>

record push =
  push_branch :: string
  push_message :: string
  push_tree :: filesystem

record world =
  pending :: "string \<Rightarrow> int"
  fs :: filesystem
  remote :: "push list"
  trace :: "event list"

text \<open>
  What the collaborators answer. Every call into the operating system, the uuid
  generator, the git client, the credential source and the path-join library may
  fail; the environment decides. The file operations are asked with the number of
  events so far, so that the same call can succeed once and fail later.
\<close>

record env =
  uuid_NewRandom :: "error + string"
  MkdirAll_err :: "nat \<Rightarrow> fpath \<Rightarrow> error option"
  WriteFile_err :: "nat \<Rightarrow> fpath \<Rightarrow> error option"
  RemoveAll_err :: "nat \<Rightarrow> fpath \<Rightarrow> error option"
  NewClientExt_err :: "error option"
  git_result :: "git_call \<Rightarrow> string \<times> error option"
  GetUserInfo_result :: "error + string \<times> string"
  SecureJoin :: "fpath \<Rightarrow> string \<Rightarrow> error + fpath"

definition emit :: "event \<Rightarrow> world \<Rightarrow> world" where
  "emit e w = w\<lparr>trace := trace w @ [e]\<rparr>"

definition logError :: "string \<Rightarrow> error \<Rightarrow> world \<Rightarrow> world" where
  "logError msg e w = emit (Log Error msg (Some e)) w"

definition logDebug :: "string \<Rightarrow> world \<Rightarrow> world" where
  "logDebug msg w = emit (Log Debug msg None) w"

subsection \<open>The pending-request gauge\<close>

text \<open>
  Modelled from the spec: the metrics server is not part of the source given. The spec
  describes a process-wide pending-request counter that is incremented on entry and
  decremented on exit; the source labels it by \<open>r.Repo.Repo\<close>.
\<close>

definition IncPendingCommitRequest :: "string \<Rightarrow> world \<Rightarrow> world" where
  "IncPendingCommitRequest repo w =
     emit (IncPending repo) (w\<lparr>pending := (pending w)(repo := pending w repo + 1)\<rparr>)"

definition DecPendingCommitRequest :: "string \<Rightarrow> world \<Rightarrow> world" where
  "DecPendingCommitRequest repo w =
     emit (DecPending repo) (w\<lparr>pending := (pending w)(repo := pending w repo - 1)\<rparr>)"

subsection \<open>File operations\<close>

definition is_file :: "node option \<Rightarrow> bool" where
  "is_file n = (case n of Some (File c) \<Rightarrow> True | _ \<Rightarrow> False)"

text \<open>
  \<open>os.MkdirAll\<close>: creates the directory and every missing parent. It fails when the
  path or one of its parents is a file, or when the environment says so.
\<close>

definition os_MkdirAll :: "env \<Rightarrow> fpath \<Rightarrow> world \<Rightarrow> error option \<times> world" where
  "os_MkdirAll env p w =
     (let w1 = emit (OsMkdirAll p) w in
      case MkdirAll_err env (length (trace w)) p of
        Some e \<Rightarrow> (Some e, w1)
      | None \<Rightarrow>
          if list_ex (\<lambda>q. is_file (fs w q)) (prefixes p)
          then (Some (Cause ''not a directory''), w1)
          else (None, w1\<lparr>fs := (\<lambda>q. if prefix q p then Some Dir else fs w q)\<rparr>))"

text \<open>
  \<open>os.WriteFile\<close>: creates the file or replaces its content. It fails when the path is
  a directory, when its parent is not an existing directory, or when the environment
  says so.
\<close>

definition os_WriteFile :: "env \<Rightarrow> fpath \<Rightarrow> content \<Rightarrow> world \<Rightarrow> error option \<times> world" where
  "os_WriteFile env p c w =
     (let w1 = emit (OsWriteFile p c) w in
      case WriteFile_err env (length (trace w)) p of
        Some e \<Rightarrow> (Some e, w1)
      | None \<Rightarrow>
          if fs w p = Some Dir then (Some (Cause ''is a directory''), w1)
          else if fs w (butlast p) \<noteq> Some Dir then (Some (Cause ''no such file or directory''), w1)
          else (None, w1\<lparr>fs := (fs w)(p \<mapsto> File c)\<rparr>))"

text \<open>\<open>os.RemoveAll\<close>: removes the path and everything below it.\<close>

definition os_RemoveAll :: "env \<Rightarrow> fpath \<Rightarrow> world \<Rightarrow> error option \<times> world" where
  "os_RemoveAll env p w =
     (let w1 = emit (OsRemoveAll p) w in
      case RemoveAll_err env (length (trace w)) p of
        Some e \<Rightarrow> (Some e, w1)
      | None \<Rightarrow> (None, w1\<lparr>fs := (\<lambda>q. if prefix p q then None else fs w q)\<rparr>))"

subsection \<open>The git client\<close>

text \<open>
  Modelled from the spec: the git client (\<open>util/git\<close>) is not part of the source given.
  By the spec each capability returns its output and an error, and the final
  commit-and-push is the only point at which the remote repository changes: when it
  succeeds the remote receives one push of the branch carrying the tree as it is then,
  and when it fails nothing is pushed. The client's own files in the workspace are
  not modelled.
\<close>

definition git :: "env \<Rightarrow> git_call \<Rightarrow> world \<Rightarrow> error option \<times> world" where
  "git env c w =
     (let w1 = emit (Git c) w in
      case (c, snd (git_result env c)) of
        (CommitAndPush branch message, None) \<Rightarrow>
          (None, w1\<lparr>remote := remote w @
             [\<lparr>push_branch = branch, push_message = message, push_tree = fs w\<rparr>]\<rparr>)
      | (_, err) \<Rightarrow> (err, w1))"

definition git_NewClientExt :: "env \<Rightarrow> ManifestsRequest \<Rightarrow> fpath \<Rightarrow> world \<Rightarrow> error option \<times> world" where
  "git_NewClientExt env r dirPath w =
     (NewClientExt_err env,
      emit (GitNewClientExt (RepoUrl r) dirPath (Insecure (Repo r)) (EnableLFS (Repo r))
              (Proxy (Repo r))) w)"

definition creds_GetUserInfo :: "env \<Rightarrow> world \<Rightarrow> (error + string \<times> string) \<times> world" where
  "creds_GetUserInfo env w = (GetUserInfo_result env, emit GetUserInfo w)"

subsection \<open>The path join of \<open>filepath-securejoin\<close>\<close>

text \<open>
  \<open>securejoin.SecureJoin\<close> is a library outside the repository, so \<open>Commit\<close> takes it
  from the environment. \<open>secureJoinLexical\<close> is what the library computes on a tree
  without symbolic links, as the workspace is after the client has cleared it: the
  unsafe path is walked component by component as if the root were the root of the
  file system, so \<open>..\<close> at the root stays at the root, and the walk is appended to the
  root. It never fails.
\<close>

fun splitPath :: "string \<Rightarrow> string list" where
  "splitPath [] = [[]]"
| "splitPath (c # cs) =
     (if c = CHR ''/'' then [] # splitPath cs
      else (case splitPath cs of [] \<Rightarrow> [[c]] | x # xs \<Rightarrow> (c # x) # xs))"

fun walk :: "fpath \<Rightarrow> string list \<Rightarrow> fpath" where
  "walk cur [] = cur"
| "walk cur (part # rest) =
     (if part = [] \<or> part = ''.'' then walk cur rest
      else if part = ''..'' then walk (butlast cur) rest
      else walk (cur @ [part]) rest)"

definition secureJoinLexical :: "fpath \<Rightarrow> string \<Rightarrow> error + fpath" where
  "secureJoinLexical root unsafePath = Inr (root @ walk [] (splitPath unsafePath))"

section \<open>The hydrator helper\<close>

text \<open>
  Modelled from the spec: \<open>newHydratorHelper\<close>, \<open>WriteManifests\<close>, \<open>WriteMetadata\<close> and
  \<open>WriteReadme\<close> are called by \<open>Commit\<close> but not part of the source given. By the spec
  each resolves the relative directory against the workspace root with the
  traversal-safe join and writes one file with a fixed name inside it, replacing an
  existing one: the manifest documents, the metadata record serialised as JSON, and
  the README rendered from the fixed template (a rendering failure aborts). The
  source names \<open>hydrator.metadata\<close> in a comment; the other two file names stand for
  the fixed names the spec leaves open.
\<close>

record hydratorHelper =
  helper_dirPath :: fpath

definition newHydratorHelper :: "fpath \<Rightarrow> hydratorHelper" where
  "newHydratorHelper dirPath = \<lparr>helper_dirPath = dirPath\<rparr>"

definition WriteManifests ::
  "env \<Rightarrow> hydratorHelper \<Rightarrow> string list \<Rightarrow> string \<Rightarrow> world \<Rightarrow> error option \<times> world" where
  "WriteManifests env h manifests dir w =
     (case SecureJoin env (helper_dirPath h) dir of
        Inl e \<Rightarrow> (Some (Wrap ''failed to construct path'' e), w)
      | Inr full \<Rightarrow> os_WriteFile env (full @ [''manifest.yaml'']) (ManifestsDoc manifests) w)"

definition WriteMetadata ::
  "env \<Rightarrow> hydratorHelper \<Rightarrow> hydratorMetadataFile \<Rightarrow> string \<Rightarrow> world \<Rightarrow> error option \<times> world" where
  "WriteMetadata env h metadata dir w =
     (case SecureJoin env (helper_dirPath h) dir of
        Inl e \<Rightarrow> (Some (Wrap ''failed to construct path'' e), w)
      | Inr full \<Rightarrow>
          os_WriteFile env (full @ [''hydrator.metadata'']) (MetadataDoc (metadata_json metadata)) w)"

definition WriteReadme ::
  "env \<Rightarrow> hydratorHelper \<Rightarrow> hydratorMetadataFile \<Rightarrow> string \<Rightarrow> world \<Rightarrow> error option \<times> world" where
  "WriteReadme env h metadata dir w =
     (case SecureJoin env (helper_dirPath h) dir of
        Inl e \<Rightarrow> (Some (Wrap ''failed to construct path'' e), w)
      | Inr full \<Rightarrow>
          (case exec_template metadata manifestHydrationReadmeTemplate of
             Inl e \<Rightarrow> (Some (Wrap ''failed to execute readme template'' e), w)
           | Inr text \<Rightarrow> os_WriteFile env (full @ [''README.md'']) (ReadmeDoc text) w))"

section \<open>The commit operation\<close>

text \<open>
  The pattern of every step of \<open>Commit\<close>: when the call returned an error, log it (for
  the steps that log) and return it wrapped with the step's context; otherwise go on
  with the rest of the function.
\<close>

definition check ::
  "string option \<Rightarrow> string \<Rightarrow> error option \<times> world \<Rightarrow> (world \<Rightarrow> error option \<times> world)
   \<Rightarrow> error option \<times> world" where
  "check logmsg ctx res rest =
     (case res of
        (Some e, w) \<Rightarrow>
          (Some (Wrap ctx e), (case logmsg of Some msg \<Rightarrow> logError msg e w | None \<Rightarrow> w))
      | (None, w) \<Rightarrow> rest w)"

text \<open>\<open>makeSecureTempDir\<close> (commit.go, lines 186-206) and the cleanup function it returns.\<close>

definition makeSecureTempDir :: "env \<Rightarrow> world \<Rightarrow> (error + fpath) \<times> world" where
  "makeSecureTempDir env w =
     (let w1 = emit UuidNewRandom w in
      case uuid_NewRandom env of
        Inl e \<Rightarrow> (Inl (Wrap ''failed to generate uuid'' e), w1)
      | Inr dirName \<Rightarrow>
          (let dirPath = [''tmp'', ''_commit-service'', dirName] in
           case os_MkdirAll env dirPath w1 of
             (Some e, w2) \<Rightarrow> (Inl (Wrap ''failed to create temp dir'' e), w2)
           | (None, w2) \<Rightarrow> (Inr dirPath, w2)))"

definition cleanup :: "env \<Rightarrow> fpath \<Rightarrow> world \<Rightarrow> error option \<times> world" where
  "cleanup env dirPath w =
     (case os_RemoveAll env dirPath w of
        (Some e, w1) \<Rightarrow> (Some (Wrap ''failed to remove temp dir'' e), w1)
      | (None, w1) \<Rightarrow> (None, w1))"

text \<open>The body of the loop over \<open>r.Paths\<close> (commit.go, lines 124-167).\<close>

definition hydrate_path ::
  "env \<Rightarrow> ManifestsRequest \<Rightarrow> hydratorHelper \<Rightarrow> fpath \<Rightarrow> PathDetails \<Rightarrow> world
   \<Rightarrow> error option \<times> world" where
  "hydrate_path env r h dirPath p w0 =
     (let hydratePath = (if Path p = ''.'' then [] else Path p);
          w1 = logDebug (''Writing manifests to '' @ hydratePath) w0
      in case SecureJoin env dirPath hydratePath of
           Inl e \<Rightarrow>
             (Some (Wrap ''failed to construct hydrate path'' e),
              logError ''failed to construct hydrate path'' e w1)
         | Inr fullHydratePath \<Rightarrow>
      check (Some ''failed to create path'') ''failed to create path''
        (os_MkdirAll env fullHydratePath w1) (\<lambda>w.
      check (Some ''failed to write manifests'') ''failed to write manifests''
        (WriteManifests env h (Manifests p) hydratePath w) (\<lambda>w.
      let hydratorMetadata =
            \<lparr>Commands = PathCommands p, RepoURL = RepoUrl r, DrySHA = DrySha r\<rparr> in
      check (Some ''failed to write hydrator metadata'') ''failed to write hydrator metadata''
        (WriteMetadata env h hydratorMetadata hydratePath (logDebug ''Writing hydrator metadata'' w))
        (\<lambda>w.
      check (Some ''failed to write readme'') ''failed to write readme''
        (WriteReadme env h hydratorMetadata hydratePath (logDebug ''Writing README'' w))
        (\<lambda>w. (None, w))))))"

text \<open>The loop: the entries in request order, stopping at the first error.\<close>

fun hydrate_paths ::
  "env \<Rightarrow> ManifestsRequest \<Rightarrow> hydratorHelper \<Rightarrow> fpath \<Rightarrow> PathDetails list \<Rightarrow> world
   \<Rightarrow> error option \<times> world" where
  "hydrate_paths env r h dirPath [] w = (None, w)"
| "hydrate_paths env r h dirPath (p # ps) w =
     (case hydrate_path env r h dirPath p w of
        (Some e, w1) \<Rightarrow> (Some e, w1)
      | (None, w1) \<Rightarrow> hydrate_paths env r h dirPath ps w1)"

text \<open>The end of \<open>Commit\<close> (commit.go, lines 170-180): the commit and push.\<close>

definition push_changes :: "env \<Rightarrow> ManifestsRequest \<Rightarrow> world \<Rightarrow> error option \<times> world" where
  "push_changes env r w0 =
     check (Some ''failed to commit and push'') ''failed to commit and push''
       (git env (CommitAndPush (TargetBranch r) (CommitMessage r))
          (logDebug ''Committing and pushing changes'' w0)) (\<lambda>w.
     (None, logDebug ''pushed manifests to git'' w))"

text \<open>
  The second half of \<open>Commit\<close> (commit.go, lines 111-180): the top-level metadata
  file, the loop over the paths, and the final commit and push.
\<close>

definition hydrate_and_push ::
  "env \<Rightarrow> ManifestsRequest \<Rightarrow> fpath \<Rightarrow> world \<Rightarrow> error option \<times> world" where
  "hydrate_and_push env r dirPath w0 =
     (let h = newHydratorHelper dirPath in
      check (Some ''failed to write top-level hydrator metadata'')
        ''failed to write top-level hydrator metadata''
        (WriteMetadata env h \<lparr>Commands = [], RepoURL = RepoUrl r, DrySHA = DrySha r\<rparr> []
           (logDebug ''Writing top-level hydrator metadata'' w0)) (\<lambda>w.
      case hydrate_paths env r h dirPath (Paths r) w of
        (Some e, w) \<Rightarrow> (Some e, w)
      | (None, w) \<Rightarrow> push_changes env r w))"

text \<open>
  The first half of \<open>Commit\<close> inside the workspace \<open>dirPath\<close> (commit.go, lines 50-107):
  the git client is created and driven to a cleared working tree; then the second
  half runs.
\<close>

definition commit_in_workspace ::
  "env \<Rightarrow> ManifestsRequest \<Rightarrow> fpath \<Rightarrow> world \<Rightarrow> error option \<times> world" where
  "commit_in_workspace env r dirPath w0 =
     check (Some ''failed to create git client'') ''failed to create git client''
       (git_NewClientExt env r dirPath w0) (\<lambda>w.
     check (Some ''failed to initialize git client'') ''failed to init git client''
       (git env Init w) (\<lambda>w.
     check None ''failed to clone repo''
       (git env (Fetch []) (logDebug (''Cloning repo '' @ RepoUrl r) w)) (\<lambda>w.
     case creds_GetUserInfo env w of
       (Inl e, w) \<Rightarrow>
         (Some (Wrap ''failed to get github app info'' e),
          logError ''failed to get github app info'' e w)
     | (Inr (authorName, authorEmail), w) \<Rightarrow>
     check (Some ''failed to set author'') ''failed to set author''
       (git env (SetAuthor authorName authorEmail) w) (\<lambda>w.
     check (Some ''failed to checkout sync branch'') ''failed to checkout sync branch''
       (git env (CheckoutOrOrphan (SyncBranch r) False)
          (logDebug (''Checking out sync branch '' @ SyncBranch r) w)) (\<lambda>w.
     check (Some ''failed to checkout target branch'') ''failed to checkout target branch''
       (git env (CheckoutOrNew (TargetBranch r) (SyncBranch r) False)
          (logDebug (''Checking out target branch '' @ TargetBranch r) w)) (\<lambda>w.
     check (Some ''failed to clear repo'') ''failed to clear repo''
       (git env RemoveContents (logDebug ''Clearing repo contents'' w))
       (hydrate_and_push env r dirPath)))))))"

text \<open>
  The deferred function of commit.go, lines 43-48: it calls the cleanup and logs its
  failure. It returns nothing, so it cannot change what \<open>Commit\<close> returns.
\<close>

definition deferred_cleanup :: "env \<Rightarrow> fpath \<Rightarrow> world \<Rightarrow> world" where
  "deferred_cleanup env dirPath w =
     (case cleanup env dirPath w of
        (Some e, w1) \<Rightarrow> logError ''failed to clean up temp dir'' e w1
      | (None, w1) \<Rightarrow> w1)"

text \<open>
  \<open>Commit\<close> after the gauge has been incremented (commit.go, lines 36-180): the
  workspace is created, and once it exists the deferred cleanup runs when the rest
  has produced its result.
\<close>

definition commit_with_workspace ::
  "env \<Rightarrow> ManifestsRequest \<Rightarrow> world \<Rightarrow> error option \<times> world" where
  "commit_with_workspace env r w0 =
     (case makeSecureTempDir env w0 of
        (Inl e, w) \<Rightarrow>
          (Some (Wrap ''failed to create temp dir'' e), logError ''failed to create temp dir'' e w)
      | (Inr dirPath, w) \<Rightarrow>
          (case commit_in_workspace env r dirPath w of
             (res, w1) \<Rightarrow> (res, deferred_cleanup env dirPath w1)))"

text \<open>
  What \<open>Commit\<close> returns: the Go function returns the empty response together with
  the error; here the error, when there is one, is the result.
\<close>

definition to_result :: "error option \<Rightarrow> error + ManifestsResponse" where
  "to_result err = (case err of Some e \<Rightarrow> Inl e | None \<Rightarrow> Inr ManifestsResponse)"

text \<open>
  \<open>Service.Commit\<close> (commit.go, lines 27-181). The gauge is incremented first and
  decremented by the deferred call of line 29, after everything else.
\<close>

definition Commit :: "env \<Rightarrow> ManifestsRequest \<Rightarrow> world \<Rightarrow> (error + ManifestsResponse) \<times> world" where
  "Commit env r w0 =
     (case commit_with_workspace env r
             (IncPendingCommitRequest (Repository_Repo (Repo r)) w0) of
        (err, w) \<Rightarrow> (to_result err, DecPendingCommitRequest (Repository_Repo (Repo r)) w))"

section \<open>Observations on a run\<close>

text \<open>The call that commits and pushes, as an event of the trace.\<close>

definition is_push :: "event \<Rightarrow> bool" where
  "is_push e = (case e of Git (CommitAndPush b m) \<Rightarrow> True | _ \<Rightarrow> False)"

text \<open>An increment or decrement of the gauge.\<close>

definition is_gauge :: "event \<Rightarrow> bool" where
  "is_gauge e = (case e of IncPending k \<Rightarrow> True | DecPending k \<Rightarrow> True | _ \<Rightarrow> False)"

text \<open>The path a file operation acts on.\<close>

definition fs_target :: "event \<Rightarrow> fpath option" where
  "fs_target e =
     (case e of OsMkdirAll p \<Rightarrow> Some p | OsWriteFile p c \<Rightarrow> Some p | OsRemoveAll p \<Rightarrow> Some p
      | _ \<Rightarrow> None)"

text \<open>A file operation stays inside the directory \<open>d\<close>; other events pass.\<close>

definition inside :: "fpath \<Rightarrow> event \<Rightarrow> bool" where
  "inside d e = (case fs_target e of Some p \<Rightarrow> prefix d p | None \<Rightarrow> True)"

text \<open>What is left of the run after the push: log entries, the removal, the gauge.\<close>

definition is_teardown :: "event \<Rightarrow> bool" where
  "is_teardown e =
     (case e of Log l m x \<Rightarrow> True | OsRemoveAll p \<Rightarrow> True | DecPending k \<Rightarrow> True | _ \<Rightarrow> False)"

text \<open>
  The calls to the git client and to the credential source, in order: the steps of
  the branch synchronisation and the final commit and push.
\<close>

definition client_calls :: "event list \<Rightarrow> event list" where
  "client_calls evs = filter (\<lambda>e. case e of Git c \<Rightarrow> True | GetUserInfo \<Rightarrow> True | _ \<Rightarrow> False) evs"

text \<open>
  A stretch of a run that leaves the gauge and the remote alone and whose events all
  satisfy \<open>A\<close>.
\<close>

definition quiet :: "(event \<Rightarrow> bool) \<Rightarrow> world \<Rightarrow> world \<Rightarrow> bool" where
  "quiet A w w' =
     (pending w' = pending w \<and> remote w' = remote w \<and>
      (\<exists>evs. trace w' = trace w @ evs \<and> list_all A evs))"

text \<open>
  Conditions on a predicate \<open>A\<close> of events: it admits what the hydration of a path
  may produce in the workspace \<open>d\<close> (log entries, and the creation of and the writes
  into a directory the join returns), and what the branch synchronisation may
  produce in addition (the calls to the client other than the push).
\<close>

definition hydration_ok :: "env \<Rightarrow> fpath \<Rightarrow> (event \<Rightarrow> bool) \<Rightarrow> bool" where
  "hydration_ok env d A =
     ((\<forall>l m x. A (Log l m x)) \<and>
      (\<forall>x full. SecureJoin env d x = Inr full \<longrightarrow>
         A (OsMkdirAll full) \<and> (\<forall>n c. A (OsWriteFile (full @ [n]) c))))"

definition body_ok :: "env \<Rightarrow> fpath \<Rightarrow> (event \<Rightarrow> bool) \<Rightarrow> bool" where
  "body_ok env d A =
     (hydration_ok env d A \<and> A GetUserInfo \<and>
      (\<forall>c. \<not> is_push (Git c) \<longrightarrow> A (Git c)) \<and>
      (\<forall>u p i l x. A (GitNewClientExt u p i l x)))"

text \<open>The name and e-mail address the credential source answers with, when it does.\<close>

definition resolved_author :: "env \<Rightarrow> string \<times> string" where
  "resolved_author env = (case GetUserInfo_result env of Inr ne \<Rightarrow> ne | Inl e \<Rightarrow> ([], []))"

text \<open>
  The branch synchronisation as the spec describes it: the ordered steps, each a call
  to the client or to the credential source, paired with the context its failure is
  wrapped with.
\<close>

definition sync_steps :: "env \<Rightarrow> ManifestsRequest \<Rightarrow> (event \<times> string) list" where
  "sync_steps env r =
     [(Git Init, ''failed to init git client''),
      (Git (Fetch []), ''failed to clone repo''),
      (GetUserInfo, ''failed to get github app info''),
      (Git (SetAuthor (fst (resolved_author env)) (snd (resolved_author env))),
         ''failed to set author''),
      (Git (CheckoutOrOrphan (SyncBranch r) False), ''failed to checkout sync branch''),
      (Git (CheckoutOrNew (TargetBranch r) (SyncBranch r) False),
         ''failed to checkout target branch''),
      (Git RemoveContents, ''failed to clear repo'')]"

text \<open>The error the environment answers a step with, if any.\<close>

definition step_error :: "env \<Rightarrow> event \<Rightarrow> error option" where
  "step_error env ev =
     (case ev of
        Git c \<Rightarrow> snd (git_result env c)
      | GetUserInfo \<Rightarrow> (case GetUserInfo_result env of Inl e \<Rightarrow> Some e | Inr ne \<Rightarrow> None)
      | _ \<Rightarrow> None)"

text \<open>The number of steps at the head of the sequence that succeed.\<close>

definition steps_done :: "env \<Rightarrow> ManifestsRequest \<Rightarrow> nat" where
  "steps_done env r = length (takeWhile (\<lambda>s. step_error env (fst s) = None) (sync_steps env r))"

section \<open>Concrete runs\<close>

text \<open>An environment in which every collaborator succeeds and the join is the lexical one.\<close>

definition env_ok :: env where
  "env_ok =
     \<lparr>uuid_NewRandom = Inr ''u1'',
      MkdirAll_err = (\<lambda>t p. None),
      WriteFile_err = (\<lambda>t p. None),
      RemoveAll_err = (\<lambda>t p. None),
      NewClientExt_err = None,
      git_result = (\<lambda>c. ([], None)),
      GetUserInfo_result = Inr (''bot'', ''bot@example.com''),
      SecureJoin = secureJoinLexical\<rparr>"

text \<open>The same environment with a removal that fails.\<close>

definition env_stuck :: env where
  "env_stuck = env_ok\<lparr>RemoveAll_err := (\<lambda>t p. Some (Cause ''device busy''))\<rparr>"

text \<open>The same environment with a git client whose checkout of the target branch fails.\<close>

definition env_no_checkout :: env where
  "env_no_checkout =
     env_ok\<lparr>git_result := (\<lambda>c. case c of CheckoutOrNew b f d \<Rightarrow> ([], Some (Cause ''exit status 128''))
                                | _ \<Rightarrow> ([], None))\<rparr>"

definition world0 :: world where
  "world0 = \<lparr>pending = (\<lambda>k. 0), fs = Map.empty, remote = [], trace = []\<rparr>"

definition repo0 :: Repository where
  "repo0 = \<lparr>Repository_Repo = ''https://git.example/repo'', Insecure = False, EnableLFS = False,
             Proxy = []\<rparr>"

text \<open>A request with the given paths; the other fields are those of the spec's scenario A.\<close>

definition request :: "PathDetails list \<Rightarrow> ManifestsRequest" where
  "request ps =
     \<lparr>Repo = repo0, RepoUrl = ''https://git.example/repo'', TargetBranch = ''env/prod'',
      SyncBranch = ''main'', DrySha = ''abc123'', CommitMessage = ''hydrate'', Paths = ps\<rparr>"

definition path_root :: PathDetails where
  "path_root = \<lparr>Path = ''.'', Manifests = [''M''], PathCommands = [''kustomize build'']\<rparr>"

definition path_traversal :: PathDetails where
  "path_traversal = \<lparr>Path = ''../../etc'', Manifests = [''M''], PathCommands = [''kustomize build'']\<rparr>"

definition path_foo :: PathDetails where
  "path_foo = \<lparr>Path = ''apps/foo'', Manifests = [''M''], PathCommands = [''helm template foo'']\<rparr>"

definition path_foo_again :: PathDetails where
  "path_foo_again = \<lparr>Path = ''apps/foo'', Manifests = [''N''], PathCommands = [''kustomize build'']\<rparr>"

text \<open>The workspace of the concrete runs.\<close>

definition ws1 :: fpath where
  "ws1 = [''tmp'', ''_commit-service'', ''u1'']"

lemma emit_simps [simp]:
  "pending (emit e w) = pending w" "fs (emit e w) = fs w" "remote (emit e w) = remote w"
  "trace (emit e w) = trace w @ [e]"
  by (simp_all add: emit_def)

lemma logError_simps [simp]:
  "pending (logError m e w) = pending w" "fs (logError m e w) = fs w"
  "remote (logError m e w) = remote w"
  "trace (logError m e w) = trace w @ [Log Error m (Some e)]"
  by (simp_all add: logError_def)

lemma logDebug_simps [simp]:
  "pending (logDebug m w) = pending w" "fs (logDebug m w) = fs w"
  "remote (logDebug m w) = remote w"
  "trace (logDebug m w) = trace w @ [Log Debug m None]"
  by (simp_all add: logDebug_def)

subsection \<open>quiet\<close>

lemma quiet_refl [simp]: "quiet A w w"
  by (simp add: quiet_def)

lemma quiet_trans: "quiet A a b \<Longrightarrow> quiet A b c \<Longrightarrow> quiet A a c"
  by (auto simp: quiet_def)

lemma quiet_mono: "quiet A w w' \<Longrightarrow> (\<And>e. A e \<Longrightarrow> B e) \<Longrightarrow> quiet B w w'"
  by (auto simp: quiet_def list_all_iff)

lemma quiet_emit: "A e \<Longrightarrow> quiet A w (emit e w)"
  by (simp add: quiet_def)

lemma quiet_logError: "A (Log Error m (Some e)) \<Longrightarrow> quiet A w (logError m e w)"
  by (simp add: quiet_def)

lemma quiet_logDebug: "A (Log Debug m None) \<Longrightarrow> quiet A w (logDebug m w)"
  by (simp add: quiet_def)

lemma quiet_os_MkdirAll: "A (OsMkdirAll p) \<Longrightarrow> quiet A w (snd (os_MkdirAll env p w))"
  by (simp add: quiet_def os_MkdirAll_def Let_def split: option.splits)

lemma quiet_os_WriteFile: "A (OsWriteFile p c) \<Longrightarrow> quiet A w (snd (os_WriteFile env p c w))"
  by (simp add: quiet_def os_WriteFile_def Let_def split: option.splits)

lemma quiet_os_RemoveAll: "A (OsRemoveAll p) \<Longrightarrow> quiet A w (snd (os_RemoveAll env p w))"
  by (simp add: quiet_def os_RemoveAll_def Let_def split: option.splits)

lemma quiet_git:
  "A (Git c) \<Longrightarrow> \<not> is_push (Git c) \<Longrightarrow> quiet A w (snd (git env c w))"
  by (cases c) (simp_all add: quiet_def git_def Let_def is_push_def split: option.splits)

lemma quiet_git_NewClientExt:
  "A (GitNewClientExt (RepoUrl r) d (Insecure (Repo r)) (EnableLFS (Repo r)) (Proxy (Repo r)))
   \<Longrightarrow> quiet A w (snd (git_NewClientExt env r d w))"
  by (simp add: quiet_def git_NewClientExt_def)

lemma quiet_creds_GetUserInfo: "A GetUserInfo \<Longrightarrow> quiet A w (snd (creds_GetUserInfo env w))"
  by (simp add: quiet_def creds_GetUserInfo_def)

lemma quiet_check:
  assumes "quiet A w0 (snd res)"
    and "\<And>w. quiet A w0 w \<Longrightarrow> quiet A w0 (snd (rest w))"
    and "\<And>l m x. A (Log l m x)"
  shows "quiet A w0 (snd (check lg ctx res rest))"
proof (cases res)
  case (Pair err w)
  show ?thesis
  proof (cases err)
    case None
    with Pair assms(1,2) show ?thesis by (simp add: check_def)
  next
    case (Some e)
    have "quiet A w (logError m e w)" for m by (rule quiet_logError) (rule assms(3))
    with Pair Some assms(1) show ?thesis
      by (cases lg) (auto simp: check_def intro: quiet_trans)
  qed
qed

lemma quiet_WriteManifests:
  "hydration_ok env (helper_dirPath h) A \<Longrightarrow> quiet A w (snd (WriteManifests env h ms x w))"
  by (auto simp: WriteManifests_def hydration_ok_def split: sum.splits intro: quiet_os_WriteFile)

lemma quiet_WriteMetadata:
  "hydration_ok env (helper_dirPath h) A \<Longrightarrow> quiet A w (snd (WriteMetadata env h m x w))"
  by (auto simp: WriteMetadata_def hydration_ok_def split: sum.splits intro: quiet_os_WriteFile)

lemma quiet_WriteReadme:
  "hydration_ok env (helper_dirPath h) A \<Longrightarrow> quiet A w (snd (WriteReadme env h m x w))"
  by (auto simp: WriteReadme_def hydration_ok_def split: sum.splits intro: quiet_os_WriteFile)

lemma quiet_after:
  "quiet A w0 w \<Longrightarrow> quiet A w w' \<Longrightarrow> quiet A w0 w'"
  by (rule quiet_trans)

lemma quiet_hydrate_path:
  assumes ok: "hydration_ok env d A" and h: "helper_dirPath h = d"
  shows "quiet A w (snd (hydrate_path env r h d p w))"
proof -
  have lg: "\<And>l m x. A (Log l m x)" using ok by (simp add: hydration_ok_def)
  have okh: "hydration_ok env (helper_dirPath h) A" using ok h by simp
  let ?x = "if Path p = ''.'' then [] else Path p"
  let ?w1 = "logDebug (''Writing manifests to '' @ ?x) w"
  have w1: "quiet A w ?w1" by (rule quiet_logDebug) (rule lg)
  show ?thesis
  proof (cases "SecureJoin env d ?x")
    case (Inl e)
    have "quiet A ?w1 (logError ''failed to construct hydrate path'' e ?w1)"
      by (rule quiet_logError) (rule lg)
    with w1 Inl show ?thesis
      by (auto simp: hydrate_path_def Let_def intro: quiet_trans)
  next
    case (Inr full)
    have mk: "A (OsMkdirAll full)" using ok Inr by (auto simp: hydration_ok_def)
    have step: "quiet A w (snd (os_MkdirAll env full ?w1))"
      using w1 quiet_os_MkdirAll[of A full, OF mk] by (rule quiet_trans)
    have dbg: "quiet A w (logDebug m w')" if "quiet A w w'" for m w'
      using that quiet_logDebug[of A, OF lg] by (rule quiet_trans)
    have wm: "quiet A w (snd (WriteManifests env h ms x w'))" if "quiet A w w'" for ms x w'
      using that quiet_WriteManifests[OF okh] by (rule quiet_trans)
    have wd: "quiet A w (snd (WriteMetadata env h m x w'))" if "quiet A w w'" for m x w'
      using that quiet_WriteMetadata[OF okh] by (rule quiet_trans)
    have wr: "quiet A w (snd (WriteReadme env h m x w'))" if "quiet A w w'" for m x w'
      using that quiet_WriteReadme[OF okh] by (rule quiet_trans)
    show ?thesis
      unfolding hydrate_path_def Let_def Inr sum.case
      by (intro quiet_check step wm wd wr dbg lg) simp_all
  qed
qed

lemma quiet_hydrate_paths:
  assumes ok: "hydration_ok env d A" and h: "helper_dirPath h = d"
  shows "quiet A w (snd (hydrate_paths env r h d ps w))"
proof (induction ps arbitrary: w)
  case Nil
  show ?case by simp
next
  case (Cons p ps)
  obtain err w1 where hp: "hydrate_path env r h d p w = (err, w1)" by fastforce
  then have q1: "quiet A w w1" using quiet_hydrate_path[OF ok h, of w r p] by simp
  show ?case
  proof (cases err)
    case None
    with hp q1 Cons[of w1] show ?thesis by (auto intro: quiet_trans)
  next
    case (Some e)
    with hp q1 show ?thesis by simp
  qed
qed


lemma quiet_step:
  "quiet A w0 w \<Longrightarrow> quiet A w w' \<Longrightarrow> quiet A w0 w'"
  by (rule quiet_trans)

lemma hydrate_and_push_shape:
  assumes ok: "hydration_ok env d A"
  shows "\<exists>w1. quiet A w w1 \<and>
           ((\<exists>e. hydrate_and_push env r d w = (Some e, w1)) \<or>
            hydrate_and_push env r d w = push_changes env r w1)"
proof -
  let ?h = "newHydratorHelper d"
  have h: "helper_dirPath ?h = d" by (simp add: newHydratorHelper_def)
  have okh: "hydration_ok env (helper_dirPath ?h) A" using ok h by simp
  have lg: "\<And>l m x. A (Log l m x)" using ok by (simp add: hydration_ok_def)
  let ?w0 = "logDebug ''Writing top-level hydrator metadata'' w"
  let ?m = "\<lparr>Commands = [], RepoURL = RepoUrl r, DrySHA = DrySha r\<rparr>"
  have q0: "quiet A w ?w0" by (rule quiet_logDebug) (rule lg)
  obtain err wm where wm: "WriteMetadata env ?h ?m [] ?w0 = (err, wm)" by fastforce
  have qm: "quiet A w wm"
    using q0 quiet_WriteMetadata[OF okh, of ?w0 ?m "[]"] wm by (auto intro: quiet_trans)
  show ?thesis
  proof (cases err)
    case (Some e)
    have "quiet A wm (logError ''failed to write top-level hydrator metadata'' e wm)"
      by (rule quiet_logError) (rule lg)
    with qm have "quiet A w (logError ''failed to write top-level hydrator metadata'' e wm)"
      by (rule quiet_trans)
    moreover have "hydrate_and_push env r d w =
        (Some (Wrap ''failed to write top-level hydrator metadata'' e),
         logError ''failed to write top-level hydrator metadata'' e wm)"
      using wm Some by (simp add: hydrate_and_push_def Let_def check_def)
    ultimately show ?thesis by blast
  next
    case None
    obtain err2 wh where wh: "hydrate_paths env r ?h d (Paths r) wm = (err2, wh)" by fastforce
    have qh: "quiet A w wh"
      using qm quiet_hydrate_paths[OF ok h, of wm r "Paths r"] wh by (auto intro: quiet_trans)
    have "hydrate_and_push env r d w =
        (case err2 of Some e \<Rightarrow> (Some e, wh) | None \<Rightarrow> push_changes env r wh)"
      using wm None wh by (simp add: hydrate_and_push_def Let_def check_def split: option.splits)
    with qh show ?thesis by (cases err2) auto
  qed
qed

lemma check_cases:
  "check lg ctx res rest =
     (case fst res of
        Some e \<Rightarrow> (Some (Wrap ctx e), (case lg of Some m \<Rightarrow> logError m e (snd res) | None \<Rightarrow> snd res))
      | None \<Rightarrow> rest (snd res))"
  by (cases res) (simp add: check_def split: option.splits)

text \<open>One step of a chain: the call is quiet, and so is the failure branch.\<close>

lemma shape_check:
  assumes res: "quiet A w0 (snd res)"
    and lg: "\<And>l m x. A (Log l m x)"
    and rest: "\<And>w. quiet A w0 w \<Longrightarrow>
                 \<exists>w1. quiet A w0 w1 \<and> ((\<exists>e. rest w = (Some e, w1)) \<or> rest w = fin w1)"
  shows "\<exists>w1. quiet A w0 w1 \<and>
           ((\<exists>e. check lg' ctx res rest = (Some e, w1)) \<or> check lg' ctx res rest = fin w1)"
proof (cases "fst res")
  case None
  then show ?thesis using rest[OF res] by (simp add: check_cases)
next
  case (Some e)
  have "quiet A (snd res) (logError m e (snd res))" for m
    by (rule quiet_logError) (rule lg)
  with res have "quiet A w0 (logError m e (snd res))" for m by (rule quiet_trans)
  with res Some show ?thesis
    by (cases lg') (auto simp: check_cases)
qed

lemma commit_in_workspace_shape:
  assumes ok: "body_ok env d A"
  shows "\<exists>w1. quiet A w w1 \<and>
           ((\<exists>e. commit_in_workspace env r d w = (Some e, w1)) \<or>
            commit_in_workspace env r d w = push_changes env r w1)"
proof -
  have hok: "hydration_ok env d A" using ok by (simp add: body_ok_def)
  have lg: "\<And>l m x. A (Log l m x)" using hok by (simp add: hydration_ok_def)
  have gi: "\<And>c. \<not> is_push (Git c) \<Longrightarrow> A (Git c)" using ok by (simp add: body_ok_def)
  have dbg: "quiet A w (logDebug m w')" if "quiet A w w'" for m w'
    using that quiet_logDebug[of A, OF lg] by (rule quiet_trans)
  have g: "quiet A w (snd (git env c w'))" if "quiet A w w'" "\<not> is_push (Git c)" for c w'
    using that(1) quiet_git[of A c, OF gi[OF that(2)] that(2)] by (rule quiet_trans)
  have nc: "quiet A w (snd (git_NewClientExt env r d w))"
    by (rule quiet_git_NewClientExt) (use ok in \<open>simp add: body_ok_def\<close>)
  have tail: "\<exists>w1. quiet A w w1 \<and>
           ((\<exists>e. hydrate_and_push env r d w' = (Some e, w1)) \<or>
            hydrate_and_push env r d w' = push_changes env r w1)" if "quiet A w w'" for w'
    using hydrate_and_push_shape[OF hok, of w' r] that by (blast intro: quiet_trans)
  have user: "\<exists>w1. quiet A w w1 \<and>
      ((\<exists>e. (case creds_GetUserInfo env w' of
               (Inl e, w2) \<Rightarrow> (Some (Wrap c e), logError m e w2)
             | (Inr (n, em), w2) \<Rightarrow> k n em w2) = (Some e, w1)) \<or>
       (case creds_GetUserInfo env w' of
               (Inl e, w2) \<Rightarrow> (Some (Wrap c e), logError m e w2)
             | (Inr (n, em), w2) \<Rightarrow> k n em w2) = push_changes env r w1)"
    if q: "quiet A w w'"
      and k: "\<And>n em w2. quiet A w w2 \<Longrightarrow>
                \<exists>w1. quiet A w w1 \<and> ((\<exists>e. k n em w2 = (Some e, w1)) \<or> k n em w2 = push_changes env r w1)"
    for w' c m k
  proof -
    have qu: "quiet A w (emit GetUserInfo w')"
      using q quiet_emit[of A GetUserInfo w'] ok by (auto simp: body_ok_def intro: quiet_trans)
    show ?thesis
    proof (cases "GetUserInfo_result env")
      case (Inl e)
      have "quiet A w (logError m e (emit GetUserInfo w'))"
        using qu quiet_logError[of A, OF lg] by (rule quiet_trans)
      with Inl show ?thesis by (auto simp: creds_GetUserInfo_def)
    next
      case (Inr ne)
      with k[OF qu] show ?thesis by (cases ne) (simp add: creds_GetUserInfo_def)
    qed
  qed
  show ?thesis
    unfolding commit_in_workspace_def
    by (intro shape_check user tail nc g dbg lg) (simp_all add: is_push_def)
qed

lemma push_changes_eq:
  "push_changes env r w =
     (let c = CommitAndPush (TargetBranch r) (CommitMessage r);
          w2 = emit (Git c) (logDebug ''Committing and pushing changes'' w)
      in case snd (git_result env c) of
           Some e \<Rightarrow> (Some (Wrap ''failed to commit and push'' e),
                      logError ''failed to commit and push'' e w2)
         | None \<Rightarrow> (None, logDebug ''pushed manifests to git''
                     (w2\<lparr>remote := remote w @
                        [\<lparr>push_branch = TargetBranch r, push_message = CommitMessage r,
                          push_tree = fs w\<rparr>]\<rparr>)))"
  by (simp add: push_changes_def check_def git_def Let_def split: option.splits)

lemma makeSecureTempDir_Inr:
  assumes "makeSecureTempDir env w = (Inr d, wd)"
  shows "\<exists>u. uuid_NewRandom env = Inr u \<and> d = [''tmp'', ''_commit-service'', u] \<and>
             MkdirAll_err env (Suc (length (trace w))) d = None \<and>
             wd = (emit (OsMkdirAll d) (emit UuidNewRandom w))
                    \<lparr>fs := (\<lambda>q. if prefix q d then Some Dir else fs w q)\<rparr>"
  using assms
  by (auto simp: makeSecureTempDir_def os_MkdirAll_def Let_def
           split: sum.splits option.splits if_splits cong: if_cong)

lemma makeSecureTempDir_Inl:
  assumes "makeSecureTempDir env w = (Inl e, wd)"
  shows "pending wd = pending w \<and> remote wd = remote w \<and> fs wd = fs w \<and>
         (trace wd = trace w @ [UuidNewRandom] \<or>
          (\<exists>u. uuid_NewRandom env = Inr u \<and>
                trace wd = trace w @ [UuidNewRandom, OsMkdirAll [''tmp'', ''_commit-service'', u]]))"
  using assms
  by (auto simp: makeSecureTempDir_def os_MkdirAll_def Let_def
           split: sum.splits option.splits if_splits)

lemma deferred_cleanup_eq:
  "deferred_cleanup env d w =
     (case RemoveAll_err env (length (trace w)) d of
        Some e \<Rightarrow> logError ''failed to clean up temp dir'' (Wrap ''failed to remove temp dir'' e)
                   (emit (OsRemoveAll d) w)
      | None \<Rightarrow> (emit (OsRemoveAll d) w)\<lparr>fs := (\<lambda>q. if prefix d q then None else fs w q)\<rparr>)"
  by (simp add: deferred_cleanup_def cleanup_def os_RemoveAll_def Let_def split: option.splits)

lemma Commit_created:
  assumes mk: "makeSecureTempDir env (IncPendingCommitRequest (Repository_Repo (Repo r)) w) = (Inr d, wd)"
    and ok: "body_ok env d A"
  shows "\<exists>w1. quiet A wd w1 \<and>
           ((\<exists>e. Commit env r w =
                   (Inl e, DecPendingCommitRequest (Repository_Repo (Repo r)) (deferred_cleanup env d w1))) \<or>
            Commit env r w =
              (to_result (fst (push_changes env r w1)),
               DecPendingCommitRequest (Repository_Repo (Repo r))
                 (deferred_cleanup env d (snd (push_changes env r w1)))))"
proof -
  obtain w1 where q: "quiet A wd w1"
    and c: "(\<exists>e. commit_in_workspace env r d wd = (Some e, w1)) \<or>
            commit_in_workspace env r d wd = push_changes env r w1"
    using commit_in_workspace_shape[OF ok, of wd r] by blast
  from c show ?thesis
  proof
    assume "\<exists>e. commit_in_workspace env r d wd = (Some e, w1)"
    then obtain e where "commit_in_workspace env r d wd = (Some e, w1)" ..
    with mk have "Commit env r w =
        (Inl e, DecPendingCommitRequest (Repository_Repo (Repo r)) (deferred_cleanup env d w1))"
      by (simp add: Commit_def commit_with_workspace_def to_result_def)
    with q show ?thesis by blast
  next
    assume "commit_in_workspace env r d wd = push_changes env r w1"
    with mk have "Commit env r w =
              (to_result (fst (push_changes env r w1)),
               DecPendingCommitRequest (Repository_Repo (Repo r))
                 (deferred_cleanup env d (snd (push_changes env r w1))))"
      by (simp add: Commit_def commit_with_workspace_def to_result_def split: prod.splits)
    with q show ?thesis by blast
  qed
qed

lemma Commit_not_created:
  assumes mk: "makeSecureTempDir env (IncPendingCommitRequest (Repository_Repo (Repo r)) w) = (Inl e, wd)"
  shows "Commit env r w =
           (Inl (Wrap ''failed to create temp dir'' e),
            DecPendingCommitRequest (Repository_Repo (Repo r))
              (logError ''failed to create temp dir'' e wd))"
  using mk by (simp add: Commit_def commit_with_workspace_def to_result_def)

lemma Inc_simps [simp]:
  "pending (IncPendingCommitRequest k w) = (pending w)(k := pending w k + 1)"
  "fs (IncPendingCommitRequest k w) = fs w"
  "remote (IncPendingCommitRequest k w) = remote w"
  "trace (IncPendingCommitRequest k w) = trace w @ [IncPending k]"
  by (simp_all add: IncPendingCommitRequest_def)

lemma Dec_simps [simp]:
  "pending (DecPendingCommitRequest k w) = (pending w)(k := pending w k - 1)"
  "fs (DecPendingCommitRequest k w) = fs w"
  "remote (DecPendingCommitRequest k w) = remote w"
  "trace (DecPendingCommitRequest k w) = trace w @ [DecPending k]"
  by (simp_all add: DecPendingCommitRequest_def)

lemma deferred_cleanup_simps [simp]:
  "pending (deferred_cleanup env d w) = pending w"
  "remote (deferred_cleanup env d w) = remote w"
  "trace (deferred_cleanup env d w) =
     trace w @ OsRemoveAll d #
       (case RemoveAll_err env (length (trace w)) d of
          Some e \<Rightarrow> [Log Error ''failed to clean up temp dir''
                       (Some (Wrap ''failed to remove temp dir'' e))]
        | None \<Rightarrow> [])"
  by (simp_all add: deferred_cleanup_eq split: option.splits)

lemma push_changes_simps [simp]:
  "pending (snd (push_changes env r w)) = pending w"
  "fst (push_changes env r w) =
     map_option (Wrap ''failed to commit and push'')
       (snd (git_result env (CommitAndPush (TargetBranch r) (CommitMessage r))))"
  "trace (snd (push_changes env r w)) =
     trace w @ [Log Debug ''Committing and pushing changes'' None,
                Git (CommitAndPush (TargetBranch r) (CommitMessage r)),
                (case snd (git_result env (CommitAndPush (TargetBranch r) (CommitMessage r))) of
                   Some e \<Rightarrow> Log Error ''failed to commit and push'' (Some e)
                 | None \<Rightarrow> Log Debug ''pushed manifests to git'' None)]"
  "remote (snd (push_changes env r w)) =
     (case snd (git_result env (CommitAndPush (TargetBranch r) (CommitMessage r))) of
        Some e \<Rightarrow> remote w
      | None \<Rightarrow> remote w @ [\<lparr>push_branch = TargetBranch r, push_message = CommitMessage r,
                              push_tree = fs w\<rparr>])"
  "fs (snd (push_changes env r w)) = fs w"
  by (simp_all add: push_changes_eq Let_def split: option.splits)

lemma body_ok_not_gauge: "body_ok env d (\<lambda>e. \<not> is_gauge e)"
  by (simp add: body_ok_def hydration_ok_def is_gauge_def)

text \<open>
  C7. Every call of \<open>Commit\<close> increments the pending-request gauge first and decrements
  it last, with no other change of the gauge in between, so that the gauge has its
  value from before the call again, whether the call succeeded or failed.
\<close>

theorem pending_counter_restored:
  "pending (snd (Commit env r w)) = pending w \<and>
   (\<exists>evs. trace (snd (Commit env r w)) =
            trace w @ IncPending (Repository_Repo (Repo r)) # evs @ [DecPending (Repository_Repo (Repo r))] \<and>
          list_all (\<lambda>e. \<not> is_gauge e) evs)"
proof -
  let ?k = "Repository_Repo (Repo r)"
  obtain res wd where mk: "makeSecureTempDir env (IncPendingCommitRequest ?k w) = (res, wd)"
    by fastforce
  show ?thesis
  proof (cases res)
    case (Inl e)
    with mk have c: "Commit env r w =
        (Inl (Wrap ''failed to create temp dir'' e),
         DecPendingCommitRequest ?k (logError ''failed to create temp dir'' e wd))"
      by (simp add: Commit_not_created)
    from mk Inl makeSecureTempDir_Inl[of env "IncPendingCommitRequest ?k w" e wd]
    show ?thesis unfolding c by (auto simp: is_gauge_def)
  next
    case (Inr d)
    with mk have mk': "makeSecureTempDir env (IncPendingCommitRequest ?k w) = (Inr d, wd)" by simp
    from makeSecureTempDir_Inr[OF mk']
    have wd: "pending wd = (pending w)(?k := pending w ?k + 1)"
      "trace wd = trace w @ [IncPending ?k, UuidNewRandom, OsMkdirAll d]" by auto
    from Commit_created[OF mk' body_ok_not_gauge]
    obtain w1 where q: "quiet (\<lambda>e. \<not> is_gauge e) wd w1"
      and c: "(\<exists>e. Commit env r w = (Inl e, DecPendingCommitRequest ?k (deferred_cleanup env d w1))) \<or>
              Commit env r w = (to_result (fst (push_changes env r w1)),
                 DecPendingCommitRequest ?k (deferred_cleanup env d (snd (push_changes env r w1))))"
      by blast
    from q obtain evs where w1: "pending w1 = pending wd" "trace w1 = trace wd @ evs"
      "list_all (\<lambda>e. \<not> is_gauge e) evs" by (auto simp: quiet_def)
    from c show ?thesis
    proof
      assume "\<exists>e. Commit env r w = (Inl e, DecPendingCommitRequest ?k (deferred_cleanup env d w1))"
      then obtain e where "Commit env r w = (Inl e, DecPendingCommitRequest ?k (deferred_cleanup env d w1))" ..
      then show ?thesis using w1 wd
        by (auto simp: is_gauge_def split: option.splits)
    next
      assume "Commit env r w = (to_result (fst (push_changes env r w1)),
                 DecPendingCommitRequest ?k (deferred_cleanup env d (snd (push_changes env r w1))))"
      then show ?thesis using w1 wd
        by (auto simp: is_gauge_def split: option.splits)
    qed
  qed
qed

theorem pending_counter_restored_witness:
  "pending (snd (Commit env_ok (request [path_root]) world0)) = pending world0 \<and>
   (\<exists>evs. trace (snd (Commit env_ok (request [path_root]) world0)) =
            trace world0 @ IncPending (Repository_Repo (Repo (request [path_root]))) # evs @
              [DecPending (Repository_Repo (Repo (request [path_root])))] \<and>
          list_all (\<lambda>e. \<not> is_gauge e) evs)"
  by (rule pending_counter_restored)

subsection \<open>Evaluating concrete runs\<close>

lemma check_Some: "check lg ctx (Some e, w) rest =
   (Some (Wrap ctx e), (case lg of Some msg \<Rightarrow> logError msg e w | None \<Rightarrow> w))"
  by (simp add: check_def)

lemma check_None: "check lg ctx (None, w) rest = rest w"
  by (simp add: check_def)

lemma check_weak_cong: "res = res' \<Longrightarrow> check lg ctx res rest = check lg ctx res' rest"
  by simp

lemmas run_defs =
  Commit_def commit_with_workspace_def makeSecureTempDir_def deferred_cleanup_def cleanup_def
  commit_in_workspace_def hydrate_and_push_def push_changes_def hydrate_path_def
  check_Some check_None git_def git_NewClientExt_def creds_GetUserInfo_def
  WriteManifests_def WriteMetadata_def WriteReadme_def newHydratorHelper_def
  os_MkdirAll_def os_WriteFile_def os_RemoveAll_def is_file_def
  IncPendingCommitRequest_def DecPendingCommitRequest_def emit_def logError_def logDebug_def
  secureJoinLexical_def to_result_def metadata_json_def manifestHydrationReadmeTemplate_def
  field_value_def Let_def

lemmas input_defs =
  env_ok_def env_stuck_def env_no_checkout_def world0_def repo0_def request_def
  path_root_def path_traversal_def path_foo_def path_foo_again_def ws1_def

lemma run_foo_ok: "fst (Commit env_ok (request [path_foo]) world0) = Inr ManifestsResponse"
  by (simp add: run_defs input_defs cong: check_weak_cong)

lemma run_foo_no_checkout:
  "fst (Commit env_no_checkout (request [path_foo]) world0) =
     Inl (Wrap ''failed to checkout target branch'' (Cause ''exit status 128''))"
  by (simp add: run_defs input_defs cong: check_weak_cong)

lemma body_ok_not_push: "body_ok env d (\<lambda>e. \<not> is_push e)"
  by (simp add: body_ok_def hydration_ok_def is_push_def)

text \<open>
  C4. The remote repository changes only at the final commit and push: a call of
  \<open>Commit\<close> that fails leaves the remote as it was, a call that succeeds adds exactly
  one push of the target branch, and in the trace of the call nothing before the
  commit-and-push step is a push and nothing after it is more than logging, the
  removal of the workspace and the gauge.
\<close>

theorem remote_changed_only_by_final_push:
  "(\<forall>e. fst (Commit env r w) = Inl e \<longrightarrow> remote (snd (Commit env r w)) = remote w) \<and>
   (fst (Commit env r w) = Inr ManifestsResponse \<longrightarrow>
      (\<exists>t. remote (snd (Commit env r w)) =
             remote w @ [\<lparr>push_branch = TargetBranch r, push_message = CommitMessage r,
                           push_tree = t\<rparr>])) \<and>
   (\<exists>pre post. trace (snd (Commit env r w)) = trace w @ pre @ post \<and>
      list_all (\<lambda>e. \<not> is_push e) pre \<and>
      (post = [] \<or>
       (\<exists>rest. post = Git (CommitAndPush (TargetBranch r) (CommitMessage r)) # rest \<and>
               list_all is_teardown rest)))"
proof -
  let ?k = "Repository_Repo (Repo r)"
  let ?c = "CommitAndPush (TargetBranch r) (CommitMessage r)"
  obtain res wd where mk: "makeSecureTempDir env (IncPendingCommitRequest ?k w) = (res, wd)"
    by fastforce
  show ?thesis
  proof (cases res)
    case (Inl e)
    with mk have c: "Commit env r w =
        (Inl (Wrap ''failed to create temp dir'' e),
         DecPendingCommitRequest ?k (logError ''failed to create temp dir'' e wd))"
      by (simp add: Commit_not_created)
    from mk Inl makeSecureTempDir_Inl[of env "IncPendingCommitRequest ?k w" e wd]
    obtain evs where wd: "remote wd = remote w" "trace wd = trace w @ evs"
      "list_all (\<lambda>e. \<not> is_push e) evs"
      by (auto simp: is_push_def)
    have "trace (snd (Commit env r w)) =
            trace w @ (evs @ [Log Error ''failed to create temp dir'' (Some e), DecPending ?k]) @ []"
      unfolding c using wd by simp
    moreover have "list_all (\<lambda>e. \<not> is_push e)
        (evs @ [Log Error ''failed to create temp dir'' (Some e), DecPending ?k])"
      using wd by (simp add: is_push_def)
    ultimately have "\<exists>pre post. trace (snd (Commit env r w)) = trace w @ pre @ post \<and>
      list_all (\<lambda>e. \<not> is_push e) pre \<and>
      (post = [] \<or>
       (\<exists>rest. post = Git ?c # rest \<and> list_all is_teardown rest))"
      by blast
    then show ?thesis unfolding c using wd by simp
  next
    case (Inr d)
    with mk have mk': "makeSecureTempDir env (IncPendingCommitRequest ?k w) = (Inr d, wd)" by simp
    from makeSecureTempDir_Inr[OF mk']
    have wd: "remote wd = remote w"
      "trace wd = trace w @ [IncPending ?k, UuidNewRandom, OsMkdirAll d]" by auto
    from Commit_created[OF mk' body_ok_not_push]
    obtain w1 where q: "quiet (\<lambda>e. \<not> is_push e) wd w1"
      and c: "(\<exists>e. Commit env r w = (Inl e, DecPendingCommitRequest ?k (deferred_cleanup env d w1))) \<or>
              Commit env r w = (to_result (fst (push_changes env r w1)),
                 DecPendingCommitRequest ?k (deferred_cleanup env d (snd (push_changes env r w1))))"
      by blast
    from q obtain evs where w1: "remote w1 = remote wd" "trace w1 = trace wd @ evs"
      "list_all (\<lambda>e. \<not> is_push e) evs" by (auto simp: quiet_def)
    from c show ?thesis
    proof
      assume "\<exists>e. Commit env r w = (Inl e, DecPendingCommitRequest ?k (deferred_cleanup env d w1))"
      then obtain e where c1: "Commit env r w = (Inl e, DecPendingCommitRequest ?k (deferred_cleanup env d w1))" ..
      let ?pre = "[IncPending ?k, UuidNewRandom, OsMkdirAll d] @ evs @ OsRemoveAll d #
         (case RemoveAll_err env (length (trace w1)) d of
            Some e \<Rightarrow> [Log Error ''failed to clean up temp dir''
                         (Some (Wrap ''failed to remove temp dir'' e))]
          | None \<Rightarrow> []) @ [DecPending ?k]"
      have "trace (snd (Commit env r w)) = trace w @ ?pre @ []"
        unfolding c1 using w1 wd by simp
      moreover have "list_all (\<lambda>e. \<not> is_push e) ?pre"
        using w1 by (simp add: is_push_def split: option.splits)
      ultimately have "\<exists>pre post. trace (snd (Commit env r w)) = trace w @ pre @ post \<and>
        list_all (\<lambda>e. \<not> is_push e) pre \<and>
        (post = [] \<or> (\<exists>rest. post = Git ?c # rest \<and> list_all is_teardown rest))"
        by blast
      then show ?thesis unfolding c1 using w1 wd by simp
    next
      assume c2: "Commit env r w = (to_result (fst (push_changes env r w1)),
                 DecPendingCommitRequest ?k (deferred_cleanup env d (snd (push_changes env r w1))))"
      let ?pre = "[IncPending ?k, UuidNewRandom, OsMkdirAll d] @ evs @
                  [Log Debug ''Committing and pushing changes'' None]"
      let ?rest = "(case snd (git_result env ?c) of
                      Some e \<Rightarrow> Log Error ''failed to commit and push'' (Some e)
                    | None \<Rightarrow> Log Debug ''pushed manifests to git'' None) #
         OsRemoveAll d #
         (case RemoveAll_err env (length (trace (snd (push_changes env r w1)))) d of
            Some e \<Rightarrow> [Log Error ''failed to clean up temp dir''
                         (Some (Wrap ''failed to remove temp dir'' e))]
          | None \<Rightarrow> []) @ [DecPending ?k]"
      have "trace (snd (Commit env r w)) = trace w @ ?pre @ (Git ?c # ?rest)"
        unfolding c2 using w1 wd by simp
      moreover have "list_all (\<lambda>e. \<not> is_push e) ?pre"
        using w1 by (simp add: is_push_def)
      moreover have "list_all is_teardown ?rest"
        by (simp add: is_teardown_def split: option.splits)
      ultimately have "\<exists>pre post. trace (snd (Commit env r w)) = trace w @ pre @ post \<and>
        list_all (\<lambda>e. \<not> is_push e) pre \<and>
        (post = [] \<or> (\<exists>rest. post = Git ?c # rest \<and> list_all is_teardown rest))"
        by blast
      then show ?thesis unfolding c2 using w1 wd
        by (auto simp: to_result_def split: option.splits)
    qed
  qed
qed

theorem remote_changed_only_by_final_push_witness:
  "remote (snd (Commit env_no_checkout (request [path_foo]) world0)) = remote world0 \<and>
   (\<exists>t. remote (snd (Commit env_ok (request [path_foo]) world0)) =
          remote world0 @ [\<lparr>push_branch = ''env/prod'', push_message = ''hydrate'', push_tree = t\<rparr>])"
  using remote_changed_only_by_final_push[of env_no_checkout "request [path_foo]" world0]
    remote_changed_only_by_final_push[of env_ok "request [path_foo]" world0]
    run_foo_ok run_foo_no_checkout
  by (simp add: request_def)

subsection \<open>The removal of the workspace\<close>

lemma RemoveAll_irrelevant [simp]:
  "os_MkdirAll (env\<lparr>RemoveAll_err := f\<rparr>) = os_MkdirAll env"
  "os_WriteFile (env\<lparr>RemoveAll_err := f\<rparr>) = os_WriteFile env"
  "git (env\<lparr>RemoveAll_err := f\<rparr>) = git env"
  "git_NewClientExt (env\<lparr>RemoveAll_err := f\<rparr>) = git_NewClientExt env"
  "creds_GetUserInfo (env\<lparr>RemoveAll_err := f\<rparr>) = creds_GetUserInfo env"
  by (simp_all add: fun_eq_iff os_MkdirAll_def os_WriteFile_def git_def git_NewClientExt_def
        creds_GetUserInfo_def)

lemma RemoveAll_irrelevant_helper [simp]:
  "WriteManifests (env\<lparr>RemoveAll_err := f\<rparr>) = WriteManifests env"
  "WriteMetadata (env\<lparr>RemoveAll_err := f\<rparr>) = WriteMetadata env"
  "WriteReadme (env\<lparr>RemoveAll_err := f\<rparr>) = WriteReadme env"
  by (simp_all add: fun_eq_iff WriteManifests_def WriteMetadata_def WriteReadme_def
        cong: sum.case_cong)

lemma hydrate_path_RemoveAll [simp]:
  "hydrate_path (env\<lparr>RemoveAll_err := f\<rparr>) = hydrate_path env"
  by (simp add: fun_eq_iff hydrate_path_def cong: sum.case_cong)

lemma hydrate_paths_RemoveAll [simp]:
  "hydrate_paths (env\<lparr>RemoveAll_err := f\<rparr>) r h d ps w = hydrate_paths env r h d ps w"
  by (induction ps arbitrary: w) (simp_all cong: prod.case_cong option.case_cong)

lemma push_changes_RemoveAll [simp]:
  "push_changes (env\<lparr>RemoveAll_err := f\<rparr>) = push_changes env"
  by (simp add: push_changes_def fun_eq_iff)

lemma hydrate_and_push_RemoveAll [simp]:
  "hydrate_and_push (env\<lparr>RemoveAll_err := f\<rparr>) r d = hydrate_and_push env r d"
  by (simp add: hydrate_and_push_def fun_eq_iff Let_def
        cong: prod.case_cong option.case_cong)

lemma commit_in_workspace_RemoveAll [simp]:
  "commit_in_workspace (env\<lparr>RemoveAll_err := f\<rparr>) r d w = commit_in_workspace env r d w"
  by (simp add: commit_in_workspace_def cong: prod.case_cong sum.case_cong)

lemma makeSecureTempDir_RemoveAll [simp]:
  "makeSecureTempDir (env\<lparr>RemoveAll_err := f\<rparr>) w = makeSecureTempDir env w"
  by (simp add: makeSecureTempDir_def Let_def cong: sum.case_cong)

lemma fst_Commit_RemoveAll:
  "fst (Commit (env\<lparr>RemoveAll_err := f\<rparr>) r w) = fst (Commit env r w)"
  by (simp add: Commit_def commit_with_workspace_def split: prod.splits sum.splits)

lemma trace_grows_in_workspace:
  "\<exists>evs. trace (snd (commit_in_workspace env r d w)) = trace w @ evs"
proof -
  have "body_ok env d (\<lambda>e. True)" by (simp add: body_ok_def hydration_ok_def)
  from commit_in_workspace_shape[OF this, of w r]
  obtain w1 where q: "quiet (\<lambda>e. True) w w1"
    and c: "(\<exists>e. commit_in_workspace env r d w = (Some e, w1)) \<or>
            commit_in_workspace env r d w = push_changes env r w1" by blast
  from q obtain evs where "trace w1 = trace w @ evs" by (auto simp: quiet_def)
  with c show ?thesis by auto
qed

text \<open>
  C3. Once the workspace has been created, every call of \<open>Commit\<close>, whether it
  succeeds or fails at any later step, runs the removal of the workspace directory
  as its last file operation, just before the gauge is decremented. When the removal
  succeeds nothing exists at or below the workspace directory afterwards; when it
  fails the failure is logged. In both cases the result of \<open>Commit\<close> is the one it
  would have with any other outcome of the removal.
\<close>

theorem workspace_removed_on_every_exit:
  assumes created:
    "fst (makeSecureTempDir env (IncPendingCommitRequest (Repository_Repo (Repo r)) w)) = Inr d"
  shows "(\<exists>evs. trace (snd (Commit env r w)) =
            trace w @ evs @ OsRemoveAll d #
              (case RemoveAll_err env (length (trace w @ evs)) d of
                 Some e \<Rightarrow> [Log Error ''failed to clean up temp dir''
                              (Some (Wrap ''failed to remove temp dir'' e))]
               | None \<Rightarrow> []) @
              [DecPending (Repository_Repo (Repo r))] \<and>
            (RemoveAll_err env (length (trace w @ evs)) d = None \<longrightarrow>
               (\<forall>q. prefix d q \<longrightarrow> fs (snd (Commit env r w)) q = None))) \<and>
         (\<forall>f. fst (Commit (env\<lparr>RemoveAll_err := f\<rparr>) r w) = fst (Commit env r w))"
proof -
  let ?k = "Repository_Repo (Repo r)"
  obtain wd where mk: "makeSecureTempDir env (IncPendingCommitRequest ?k w) = (Inr d, wd)"
    using created by (cases "makeSecureTempDir env (IncPendingCommitRequest ?k w)") simp
  from makeSecureTempDir_Inr[OF mk]
  have wd: "trace wd = trace w @ [IncPending ?k, UuidNewRandom, OsMkdirAll d]" by auto
  obtain res wb where body: "commit_in_workspace env r d wd = (res, wb)" by fastforce
  from trace_grows_in_workspace[of env r d wd] body
  obtain evs' where wb: "trace wb = trace wd @ evs'" by auto
  have c: "Commit env r w = (to_result res, DecPendingCommitRequest ?k (deferred_cleanup env d wb))"
    using mk body by (simp add: Commit_def commit_with_workspace_def)
  let ?evs = "[IncPending ?k, UuidNewRandom, OsMkdirAll d] @ evs'"
  have len: "trace wb = trace w @ ?evs" using wb wd by simp
  have tr: "trace (snd (Commit env r w)) =
            trace w @ ?evs @ OsRemoveAll d #
              (case RemoveAll_err env (length (trace w @ ?evs)) d of
                 Some e \<Rightarrow> [Log Error ''failed to clean up temp dir''
                              (Some (Wrap ''failed to remove temp dir'' e))]
               | None \<Rightarrow> []) @ [DecPending ?k]"
    unfolding c using len by simp
  have gone: "RemoveAll_err env (length (trace w @ ?evs)) d = None \<longrightarrow>
               (\<forall>q. prefix d q \<longrightarrow> fs (snd (Commit env r w)) q = None)"
    unfolding c using len by (simp add: deferred_cleanup_eq)
  have same: "\<forall>f. fst (Commit (env\<lparr>RemoveAll_err := f\<rparr>) r w) = fst (Commit env r w)"
    by (simp add: fst_Commit_RemoveAll)
  from tr gone same show ?thesis by (intro conjI exI[of _ ?evs])
qed

lemma tempdir_ok:
  "fst (makeSecureTempDir env_ok
          (IncPendingCommitRequest (Repository_Repo (Repo (request ps))) world0)) = Inr ws1"
  by (simp add: run_defs input_defs)

theorem workspace_removed_on_every_exit_witness:
  "fst (makeSecureTempDir env_ok
          (IncPendingCommitRequest (Repository_Repo (Repo (request [path_foo]))) world0)) = Inr ws1 \<and>
   fs (snd (Commit env_ok (request [path_foo]) world0))
      (ws1 @ [''apps'', ''foo'', ''manifest.yaml'']) = None \<and>
   fst (Commit env_stuck (request [path_foo]) world0) = Inr ManifestsResponse"
proof -
  note inst = workspace_removed_on_every_exit[OF tempdir_ok, of "[path_foo]"]
  have none: "RemoveAll_err env_ok t ws1 = None" for t by (simp add: env_ok_def)
  from inst none have "fs (snd (Commit env_ok (request [path_foo]) world0))
      (ws1 @ [''apps'', ''foo'', ''manifest.yaml'']) = None"
    by (metis prefixI)
  moreover from inst have "fst (Commit env_stuck (request [path_foo]) world0) =
      fst (Commit env_ok (request [path_foo]) world0)"
    unfolding env_stuck_def by blast
  ultimately show ?thesis using tempdir_ok run_foo_ok by simp
qed

subsection \<open>The calls to the client\<close>

lemma client_calls_simps [simp]:
  "client_calls [] = []"
  "client_calls (xs @ ys) = client_calls xs @ client_calls ys"
  "client_calls (Git c # xs) = Git c # client_calls xs"
  "client_calls (GetUserInfo # xs) = GetUserInfo # client_calls xs"
  "client_calls (Log l m x # xs) = client_calls xs"
  "client_calls (IncPending k # xs) = client_calls xs"
  "client_calls (DecPending k # xs) = client_calls xs"
  "client_calls (UuidNewRandom # xs) = client_calls xs"
  "client_calls (OsMkdirAll p # xs) = client_calls xs"
  "client_calls (OsWriteFile p c' # xs) = client_calls xs"
  "client_calls (OsRemoveAll p # xs) = client_calls xs"
  "client_calls (GitNewClientExt u p i lf px # xs) = client_calls xs"
  by (simp_all add: client_calls_def)

definition no_call :: "event \<Rightarrow> bool" where
  "no_call e = (client_calls [e] = [])"

lemma client_calls_no_call: "list_all no_call evs \<Longrightarrow> client_calls evs = []"
  by (induction evs) (auto simp: no_call_def client_calls_def split: event.splits)

lemma hydration_ok_no_call: "hydration_ok env d no_call"
  by (simp add: hydration_ok_def no_call_def)

lemma hydrate_and_push_calls:
  "\<exists>cs. client_calls (trace (snd (hydrate_and_push env r d w))) = client_calls (trace w) @ cs \<and>
        (cs = [] \<or> cs = [Git (CommitAndPush (TargetBranch r) (CommitMessage r))])"
proof -
  from hydrate_and_push_shape[OF hydration_ok_no_call, where w=w and r=r and env=env and d=d]
  obtain w1 where q: "quiet no_call w w1"
    and c: "(\<exists>e. hydrate_and_push env r d w = (Some e, w1)) \<or>
            hydrate_and_push env r d w = push_changes env r w1" by blast
  from q obtain evs where "trace w1 = trace w @ evs" "list_all no_call evs"
    by (auto simp: quiet_def)
  then have w1: "client_calls (trace w1) = client_calls (trace w)"
    by (simp add: client_calls_no_call)
  from c show ?thesis
  proof
    assume "\<exists>e. hydrate_and_push env r d w = (Some e, w1)"
    with w1 show ?thesis by auto
  next
    assume "hydrate_and_push env r d w = push_changes env r w1"
    with w1 show ?thesis by (simp split: option.splits)
  qed
qed

lemma git_no_push:
  "\<not> is_push (Git c) \<Longrightarrow> git env c w = (snd (git_result env c), emit (Git c) w)"
  by (cases c) (simp_all add: git_def is_push_def Let_def split: option.splits)

lemma check_git:
  "\<not> is_push (Git c) \<Longrightarrow>
   check lg ctx (git env c w) rest =
     (case snd (git_result env c) of
        Some e \<Rightarrow> (Some (Wrap ctx e),
                   (case lg of Some m \<Rightarrow> logError m e (emit (Git c) w) | None \<Rightarrow> emit (Git c) w))
      | None \<Rightarrow> rest (emit (Git c) w))"
  by (simp add: git_no_push check_def split: option.splits)

lemma commit_in_workspace_calls:
  assumes client: "NewClientExt_err env = None"
  shows "\<exists>cs. client_calls (trace (snd (commit_in_workspace env r d w))) =
               client_calls (trace w) @ cs \<and>
          (if steps_done env r < length (sync_steps env r)
           then cs = map fst (take (Suc (steps_done env r)) (sync_steps env r)) \<and>
                (\<exists>e. step_error env (fst (sync_steps env r ! steps_done env r)) = Some e \<and>
                     fst (commit_in_workspace env r d w) =
                       Some (Wrap (snd (sync_steps env r ! steps_done env r)) e))
           else cs = map fst (sync_steps env r) \<or>
                cs = map fst (sync_steps env r) @
                       [Git (CommitAndPush (TargetBranch r) (CommitMessage r))])"
proof -
  have tail: "\<exists>cs. client_calls (trace (snd (hydrate_and_push env r d w'))) = xs @ cs \<and>
        (cs = [] \<or> cs = [Git (CommitAndPush (TargetBranch r) (CommitMessage r))])"
    if "client_calls (trace w') = xs" for w' xs
    using hydrate_and_push_calls[of env r d w'] that by simp
  note defs = commit_in_workspace_def check_git is_push_def git_NewClientExt_def
    check_None creds_GetUserInfo_def steps_done_def sync_steps_def step_error_def
    resolved_author_def
  show ?thesis
  proof (cases "snd (git_result env Init)")
    case (Some e)
    with client show ?thesis by (simp add: defs)
  next
    case s1: None
    show ?thesis
    proof (cases "snd (git_result env (Fetch []))")
      case (Some e)
      with client s1 show ?thesis by (simp add: defs)
    next
      case s2: None
      show ?thesis
      proof (cases "GetUserInfo_result env")
        case (Inl e)
        with client s1 s2 show ?thesis by (simp add: defs)
      next
        case (Inr ne)
        obtain n em where ne: "ne = (n, em)" by (cases ne)
        note s3 = Inr[unfolded ne]
        show ?thesis
        proof (cases "snd (git_result env (SetAuthor n em))")
          case (Some e)
          with client s1 s2 s3 show ?thesis by (simp add: defs)
        next
          case s4: None
          show ?thesis
          proof (cases "snd (git_result env (CheckoutOrOrphan (SyncBranch r) False))")
            case (Some e)
            with client s1 s2 s3 s4 show ?thesis by (simp add: defs)
          next
            case s5: None
            show ?thesis
            proof (cases "snd (git_result env (CheckoutOrNew (TargetBranch r) (SyncBranch r) False))")
              case (Some e)
              with client s1 s2 s3 s4 s5 show ?thesis by (simp add: defs)
            next
              case s6: None
              show ?thesis
              proof (cases "snd (git_result env RemoveContents)")
                case (Some e)
                with client s1 s2 s3 s4 s5 s6 show ?thesis by (simp add: defs)
              next
                case s7: None
                have "\<exists>W. commit_in_workspace env r d w = hydrate_and_push env r d W \<and>
                        client_calls (trace W) =
                          client_calls (trace w) @ map fst (sync_steps env r)"
                  using client s1 s2 s3 s4 s5 s6 s7
                  apply (simp add: defs)
                  apply (rule exI, rule conjI, rule refl)
                  apply simp
                  done
                then obtain W where W: "commit_in_workspace env r d w = hydrate_and_push env r d W"
                  "client_calls (trace W) = client_calls (trace w) @ map fst (sync_steps env r)"
                  by blast
                from tail[OF W(2)] obtain cs where
                  cs: "client_calls (trace (snd (hydrate_and_push env r d W))) =
                         (client_calls (trace w) @ map fst (sync_steps env r)) @ cs"
                      "cs = [] \<or> cs = [Git (CommitAndPush (TargetBranch r) (CommitMessage r))]"
                  by blast
                have all_done: "steps_done env r = length (sync_steps env r)"
                  using s1 s2 s3 s4 s5 s6 s7 by (simp add: defs)
                show ?thesis
                  unfolding W(1) all_done using cs
                  by (intro exI[of _ "map fst (sync_steps env r) @ cs"]) auto
              qed
            qed
          qed
        qed
      qed
    qed
  qed
qed

text \<open>
  C8. Once the workspace and the git client exist, \<open>Commit\<close> drives the client
  through the steps of the branch synchronisation in their order: init, fetch with
  no ref, the resolution of the author and set author with it, checkout of the sync
  branch or an orphan, checkout of the target branch or a new one from the sync
  branch, and the clearing of the working tree. The calls made are exactly the steps
  up to and including the first one that fails, each once, and then \<open>Commit\<close> returns
  that step's error wrapped with that step's context. When no step fails, all of
  them are made, followed by nothing or by the single commit and push.
\<close>

theorem client_driven_through_sync_steps:
  assumes created:
    "fst (makeSecureTempDir env (IncPendingCommitRequest (Repository_Repo (Repo r)) w)) = Inr d"
    and client: "NewClientExt_err env = None"
  shows "\<exists>cs. client_calls (trace (snd (Commit env r w))) = client_calls (trace w) @ cs \<and>
          (if steps_done env r < length (sync_steps env r)
           then cs = map fst (take (Suc (steps_done env r)) (sync_steps env r)) \<and>
                (\<exists>e. step_error env (fst (sync_steps env r ! steps_done env r)) = Some e \<and>
                     fst (Commit env r w) =
                       Inl (Wrap (snd (sync_steps env r ! steps_done env r)) e))
           else cs = map fst (sync_steps env r) \<or>
                cs = map fst (sync_steps env r) @
                       [Git (CommitAndPush (TargetBranch r) (CommitMessage r))])"
proof -
  let ?k = "Repository_Repo (Repo r)"
  obtain wd where mk: "makeSecureTempDir env (IncPendingCommitRequest ?k w) = (Inr d, wd)"
    using created by (cases "makeSecureTempDir env (IncPendingCommitRequest ?k w)") simp
  from makeSecureTempDir_Inr[OF mk]
  have wd: "client_calls (trace wd) = client_calls (trace w)" by auto
  obtain res wb where body: "commit_in_workspace env r d wd = (res, wb)" by fastforce
  have c: "Commit env r w = (to_result res, DecPendingCommitRequest ?k (deferred_cleanup env d wb))"
    using mk body by (simp add: Commit_def commit_with_workspace_def)
  have calls: "client_calls (trace (snd (Commit env r w))) = client_calls (trace wb)"
    unfolding c by (simp split: option.splits)
  have res: "fst (Commit env r w) = to_result res" unfolding c by simp
  have fst_body: "fst (commit_in_workspace env r d wd) = res"
    and snd_body: "snd (commit_in_workspace env r d wd) = wb"
    using body by simp_all
  note commit_in_workspace_calls[OF client, of r d wd, unfolded fst_body snd_body wd]
  then obtain cs where cs: "client_calls (trace wb) = client_calls (trace w) @ cs"
    and shape: "if steps_done env r < length (sync_steps env r)
           then cs = map fst (take (Suc (steps_done env r)) (sync_steps env r)) \<and>
                (\<exists>e. step_error env (fst (sync_steps env r ! steps_done env r)) = Some e \<and>
                     res = Some (Wrap (snd (sync_steps env r ! steps_done env r)) e))
           else cs = map fst (sync_steps env r) \<or>
                cs = map fst (sync_steps env r) @
                       [Git (CommitAndPush (TargetBranch r) (CommitMessage r))]"
    by blast
  show ?thesis
    unfolding calls res
    by (rule exI[of _ cs]) (use cs shape in \<open>auto simp: to_result_def split: if_splits\<close>)
qed

lemma steps_done_no_checkout: "steps_done env_no_checkout (request ps) = 5"
  by (simp add: steps_done_def sync_steps_def step_error_def resolved_author_def input_defs)

lemma tempdir_no_checkout:
  "fst (makeSecureTempDir env_no_checkout
          (IncPendingCommitRequest (Repository_Repo (Repo (request ps))) world0)) = Inr ws1"
  by (simp add: run_defs input_defs)

theorem client_driven_through_sync_steps_witness:
  "fst (makeSecureTempDir env_no_checkout
          (IncPendingCommitRequest (Repository_Repo (Repo (request [path_foo]))) world0)) = Inr ws1 \<and>
   NewClientExt_err env_no_checkout = None \<and>
   client_calls (trace (snd (Commit env_no_checkout (request [path_foo]) world0))) =
     [Git Init, Git (Fetch []), GetUserInfo, Git (SetAuthor ''bot'' ''bot@example.com''),
      Git (CheckoutOrOrphan ''main'' False), Git (CheckoutOrNew ''env/prod'' ''main'' False)] \<and>
   fst (Commit env_no_checkout (request [path_foo]) world0) =
     Inl (Wrap ''failed to checkout target branch'' (Cause ''exit status 128''))"
proof -
  let ?r = "request [path_foo]"
  have client: "NewClientExt_err env_no_checkout = None" by (simp add: input_defs)
  have len: "length (sync_steps env_no_checkout ?r) = 7" by (simp add: sync_steps_def)
  have calls: "map fst (take 6 (sync_steps env_no_checkout ?r)) =
     [Git Init, Git (Fetch []), GetUserInfo, Git (SetAuthor ''bot'' ''bot@example.com''),
      Git (CheckoutOrOrphan ''main'' False), Git (CheckoutOrNew ''env/prod'' ''main'' False)]"
    by (simp add: sync_steps_def resolved_author_def input_defs)
  have failing: "sync_steps env_no_checkout ?r ! 5 =
     (Git (CheckoutOrNew ''env/prod'' ''main'' False), ''failed to checkout target branch'')"
    by (simp add: sync_steps_def input_defs)
  have err: "step_error env_no_checkout (Git (CheckoutOrNew ''env/prod'' ''main'' False)) =
     Some (Cause ''exit status 128'')"
    by (simp add: step_error_def input_defs)
  have start: "client_calls (trace world0) = []" by (simp add: world0_def)
  from client_driven_through_sync_steps[OF tempdir_no_checkout client, of "[path_foo]"]
  show ?thesis
    using tempdir_no_checkout[of "[path_foo]"] client
    by (simp add: steps_done_no_checkout len calls failing err start)
qed

subsection \<open>Where an error comes from\<close>

lemma check_other:
  assumes "fst (check lg ctx res rest) = Some (Wrap c e)" and "ctx \<noteq> c"
  shows "fst res = None \<and> fst (rest (snd res)) = Some (Wrap c e)"
  using assms by (cases res) (auto simp: check_def split: option.splits)

lemma hydrate_path_join_error:
  assumes "fst (hydrate_path env r h d p w) = Some (Wrap ''failed to construct hydrate path'' e)"
  shows "SecureJoin env d (if Path p = ''.'' then [] else Path p) = Inl e"
proof (cases "SecureJoin env d (if Path p = ''.'' then [] else Path p)")
  case (Inl e')
  with assms show ?thesis by (simp add: hydrate_path_def Let_def)
next
  case (Inr full)
  with assms have False
    unfolding hydrate_path_def Let_def
    by (auto dest!: check_other)
  then show ?thesis ..
qed

lemma hydrate_paths_join_error:
  assumes "fst (hydrate_paths env r h d ps w) = Some (Wrap ''failed to construct hydrate path'' e)"
  shows "\<exists>p\<in>set ps. SecureJoin env d (if Path p = ''.'' then [] else Path p) = Inl e"
  using assms
proof (induction ps arbitrary: w)
  case Nil
  then show ?case by simp
next
  case (Cons p ps)
  obtain err w1 where hp: "hydrate_path env r h d p w = (err, w1)" by fastforce
  show ?case
  proof (cases err)
    case None
    with hp Cons.prems have "fst (hydrate_paths env r h d ps w1) =
        Some (Wrap ''failed to construct hydrate path'' e)" by simp
    from Cons.IH[OF this] show ?thesis by auto
  next
    case (Some e')
    with hp Cons.prems have "fst (hydrate_path env r h d p w) =
        Some (Wrap ''failed to construct hydrate path'' e)" by simp
    from hydrate_path_join_error[OF this] show ?thesis by simp
  qed
qed

lemma hydrate_and_push_join_error:
  assumes "fst (hydrate_and_push env r d w) = Some (Wrap ''failed to construct hydrate path'' e)"
  shows "\<exists>p\<in>set (Paths r). SecureJoin env d (if Path p = ''.'' then [] else Path p) = Inl e"
proof -
  let ?h = "newHydratorHelper d"
  from assms obtain w1 where
    loop: "fst (case hydrate_paths env r ?h d (Paths r) w1 of
                  (Some e, w) \<Rightarrow> (Some e, w) | (None, w) \<Rightarrow> push_changes env r w) =
           Some (Wrap ''failed to construct hydrate path'' e)"
    unfolding hydrate_and_push_def Let_def by (auto dest!: check_other)
  obtain err w2 where hp: "hydrate_paths env r ?h d (Paths r) w1 = (err, w2)" by fastforce
  show ?thesis
  proof (cases err)
    case None
    with hp loop have False by (simp add: push_changes_def) (auto dest!: check_other)
    then show ?thesis ..
  next
    case (Some e')
    with hp loop have "fst (hydrate_paths env r ?h d (Paths r) w1) =
        Some (Wrap ''failed to construct hydrate path'' e)" by simp
    from hydrate_paths_join_error[OF this] show ?thesis .
  qed
qed

lemma commit_in_workspace_join_error:
  assumes "fst (commit_in_workspace env r d w) = Some (Wrap ''failed to construct hydrate path'' e)"
  shows "\<exists>p\<in>set (Paths r). SecureJoin env d (if Path p = ''.'' then [] else Path p) = Inl e"
proof -
  from assms obtain w1 where
    "fst (hydrate_and_push env r d w1) = Some (Wrap ''failed to construct hydrate path'' e)"
    unfolding commit_in_workspace_def
    by (auto dest!: check_other simp: creds_GetUserInfo_def split: sum.splits prod.splits)
  from hydrate_and_push_join_error[OF this] show ?thesis .
qed

lemma inside_simps [simp]:
  "inside d (Log l m x)" "inside d GetUserInfo" "inside d (Git c)"
  "inside d (GitNewClientExt u p i lf px)" "inside d UuidNewRandom"
  "inside d (IncPending k)" "inside d (DecPending k)"
  "inside d (OsMkdirAll q) = prefix d q" "inside d (OsWriteFile q c') = prefix d q"
  "inside d (OsRemoveAll q) = prefix d q"
  by (simp_all add: inside_def fs_target_def)

lemma body_ok_inside:
  assumes "\<forall>x full. SecureJoin env d x = Inr full \<longrightarrow> prefix d full"
  shows "body_ok env d (inside d)"
  using assms by (auto simp: body_ok_def hydration_ok_def)

lemma secureJoinLexical_inside:
  "secureJoinLexical d x = Inr full \<Longrightarrow> prefix d full"
  by (auto simp: secureJoinLexical_def)

text \<open>
  C1, as the claim states it, fails: with the join that the library computes on a
  tree without symbolic links, a request whose only path is \<open>../../etc\<close> succeeds,
  and its manifests are written to the directory \<open>etc\<close> of the workspace.
\<close>

theorem traversal_path_is_clamped:
  "Path path_traversal = ''../../etc'' \<and>
   fst (Commit env_ok (request [path_traversal]) world0) = Inr ManifestsResponse \<and>
   OsWriteFile (ws1 @ [''etc'', ''manifest.yaml'']) (ManifestsDoc [''M''])
     \<in> set (trace (snd (Commit env_ok (request [path_traversal]) world0)))"
  by (simp add: run_defs input_defs cong: check_weak_cong)

text \<open>
  C1, amended. \<open>Commit\<close> does not reject a path for its traversal segments: it fails
  with the path-construction error only when the join itself returns an error for
  one of the request's paths, and then with that error; for such a path the
  hydration step returns it. When the join keeps its results inside the workspace,
  as the library does, every directory created, every file written and the final
  removal act inside the workspace.
\<close>

theorem path_error_only_from_join_and_writes_inside:
  assumes created:
    "fst (makeSecureTempDir env (IncPendingCommitRequest (Repository_Repo (Repo r)) w)) = Inr d"
    and contained: "\<forall>x full. SecureJoin env d x = Inr full \<longrightarrow> prefix d full"
  shows "(\<forall>e. fst (Commit env r w) = Inl (Wrap ''failed to construct hydrate path'' e) \<longrightarrow>
              (\<exists>p\<in>set (Paths r).
                  SecureJoin env d (if Path p = ''.'' then [] else Path p) = Inl e)) \<and>
         (\<forall>p h w' e. SecureJoin env d (if Path p = ''.'' then [] else Path p) = Inl e \<longrightarrow>
              fst (hydrate_path env r h d p w') =
                Some (Wrap ''failed to construct hydrate path'' e)) \<and>
         (\<exists>evs. trace (snd (Commit env r w)) = trace w @ evs \<and> list_all (inside d) evs)"
proof -
  let ?k = "Repository_Repo (Repo r)"
  obtain wd where mk: "makeSecureTempDir env (IncPendingCommitRequest ?k w) = (Inr d, wd)"
    using created by (cases "makeSecureTempDir env (IncPendingCommitRequest ?k w)") simp
  from makeSecureTempDir_Inr[OF mk]
  have wd: "trace wd = trace w @ [IncPending ?k, UuidNewRandom, OsMkdirAll d]" by auto
  obtain res wb where body: "commit_in_workspace env r d wd = (res, wb)" by fastforce
  have c: "Commit env r w = (to_result res, DecPendingCommitRequest ?k (deferred_cleanup env d wb))"
    using mk body by (simp add: Commit_def commit_with_workspace_def)
  have first: "\<exists>p\<in>set (Paths r). SecureJoin env d (if Path p = ''.'' then [] else Path p) = Inl e"
    if "fst (Commit env r w) = Inl (Wrap ''failed to construct hydrate path'' e)" for e
  proof -
    from that have "res = Some (Wrap ''failed to construct hydrate path'' e)"
      unfolding c by (cases res) (simp_all add: to_result_def)
    with body have "fst (commit_in_workspace env r d wd) =
        Some (Wrap ''failed to construct hydrate path'' e)" by simp
    from commit_in_workspace_join_error[OF this] show ?thesis .
  qed
  have second: "fst (hydrate_path env r h d p w') =
                Some (Wrap ''failed to construct hydrate path'' e)"
    if "SecureJoin env d (if Path p = ''.'' then [] else Path p) = Inl e" for p h w' e
    using that by (simp add: hydrate_path_def Let_def)
  from Commit_created[OF mk body_ok_inside[OF contained]]
  obtain w1 where q: "quiet (inside d) wd w1"
    and alt: "(\<exists>e. Commit env r w = (Inl e, DecPendingCommitRequest ?k (deferred_cleanup env d w1))) \<or>
              Commit env r w = (to_result (fst (push_changes env r w1)),
                 DecPendingCommitRequest ?k (deferred_cleanup env d (snd (push_changes env r w1))))"
    by blast
  from q obtain evs where w1: "trace w1 = trace wd @ evs" "list_all (inside d) evs"
    by (auto simp: quiet_def)
  have third: "\<exists>evs. trace (snd (Commit env r w)) = trace w @ evs \<and> list_all (inside d) evs"
    using alt
  proof
    assume "\<exists>e. Commit env r w = (Inl e, DecPendingCommitRequest ?k (deferred_cleanup env d w1))"
    then obtain e where "Commit env r w = (Inl e, DecPendingCommitRequest ?k (deferred_cleanup env d w1))" ..
    then show ?thesis using w1 wd by (auto split: option.splits)
  next
    assume "Commit env r w = (to_result (fst (push_changes env r w1)),
                 DecPendingCommitRequest ?k (deferred_cleanup env d (snd (push_changes env r w1))))"
    then show ?thesis using w1 wd by (auto split: option.splits)
  qed
  from first second third show ?thesis by blast
qed

theorem path_error_only_from_join_and_writes_inside_witness:
  "fst (makeSecureTempDir env_ok
          (IncPendingCommitRequest (Repository_Repo (Repo (request [path_traversal]))) world0)) = Inr ws1 \<and>
   (\<exists>evs. trace (snd (Commit env_ok (request [path_traversal]) world0)) = trace world0 @ evs \<and>
          list_all (inside ws1) evs)"
proof -
  have contained: "\<forall>x full. SecureJoin env_ok ws1 x = Inr full \<longrightarrow> prefix ws1 full"
    by (simp add: env_ok_def secureJoinLexical_inside)
  from path_error_only_from_join_and_writes_inside[OF tempdir_ok contained, of "[path_traversal]"]
  show ?thesis using tempdir_ok by blast
qed

end
